theory Spec2Isabelle
  imports Main "HOL-Library.AList"
begin

section \<open>Data model (backend/src/types/index.ts, backend/src/utils/errors.ts)\<close>

text \<open>
  A \<open>Buffer\<close> is a list of bytes. Timestamps (\<open>Date\<close>) are milliseconds since the epoch.
  The opaque \<open>metadata\<close> bag of a session plays no part in any operation below and is left out.
\<close>

type_synonym buffer = "char list"
type_synonym time = nat

datatype UploadStatus = INIT | UPLOADING | ASSEMBLING | COMPLETED | FAILED

record UploadSession =
  uploadId :: string
  userId :: "string option"
  fileName :: string
  fileSize :: int
  fileType :: string
  checksum :: "string option"
  totalChunks :: nat
  status :: UploadStatus
  filePath :: "string option"
  createdAt :: time
  updatedAt :: time
  expiresAt :: time

text \<open>\<open>ChunkMetadata\<close>; the field names carry a suffix where they would clash with the
  session's fields or with \<open>size\<close>.\<close>

record ChunkMetadata =
  uploadId_c :: string
  chunkIndex :: nat
  path :: string
  size_c :: nat
  uploadedAt :: time

text \<open>\<open>AppError\<close>: HTTP status, error code and the optional \<open>details\<close>; the human-readable
  message is not modelled.\<close>

datatype details = NoDetails | MissingChunksDetails "nat list"

record AppError =
  statusCode :: nat
  code :: string
  details :: details

definition NotFoundError :: AppError where
  "NotFoundError = \<lparr>statusCode = 404, code = ''NOT_FOUND'', details = NoDetails\<rparr>"

definition ValidationFailed :: AppError where
  "ValidationFailed = \<lparr>statusCode = 400, code = ''VALIDATION_ERROR'', details = NoDetails\<rparr>"

definition MissingChunksError :: "nat list \<Rightarrow> AppError" where
  "MissingChunksError missing =
     \<lparr>statusCode = 400, code = ''MISSING_CHUNKS'', details = MissingChunksDetails missing\<rparr>"

text \<open>An exception that is not an \<open>AppError\<close> (a failed \<open>fs.readFile\<close>) reaches the client
  through \<open>toApiError\<close> as 500 / INTERNAL_ERROR.\<close>

definition InternalError :: AppError where
  "InternalError = \<lparr>statusCode = 500, code = ''INTERNAL_ERROR'', details = NoDetails\<rparr>"

section \<open>Configuration (backend/src/config/index.ts)\<close>

record config =
  nodeEnv :: string
  s3_endpoint :: string
  chunkSize :: nat
  maxFileSize :: int
  tempDir :: string
  finalDir :: string
  expiryHours :: nat

text \<open>The defaults of \<open>config\<close> when no environment variable is set.\<close>

definition default_config :: config where
  "default_config =
     \<lparr>nodeEnv = ''development'', s3_endpoint = ''http://localhost:9000'',
      chunkSize = 1048576, maxFileSize = 10737418240,
      tempDir = ''./uploads/temp'', finalDir = ''./uploads/final'', expiryHours = 24\<rparr>"

section \<open>Redis (backend/src/config/redis.ts)\<close>

text \<open>
  A Redis keyspace is an association list from key to value, with \<open>GET\<close>, \<open>SETEX\<close>, \<open>DEL\<close>
  and \<open>KEYS\<close>. The expiry of a key when its time to live runs out is an event of the Redis
  server in real time, not a step of the program: the operations below are verified between
  such events, and the \<open>seconds\<close> argument of \<open>SETEX\<close> is carried but has no effect.
  The session cache (keys \<open>upload:<id>\<close>) and the chunk index (keys \<open>chunk:<id>:<n>\<close>) live in
  one Redis database under disjoint prefixes and are kept as two keyspaces here. Values are
  the records themselves rather than their JSON text.
\<close>

type_synonym 'v redis = "(string \<times> 'v) list"

definition redis_get :: "'v redis \<Rightarrow> string \<Rightarrow> 'v option" where
  "redis_get r k = map_of r k"

definition redis_setex :: "'v redis \<Rightarrow> string \<Rightarrow> nat \<Rightarrow> 'v \<Rightarrow> 'v redis" where
  "redis_setex r k seconds v = AList.update k v r"

definition redis_del :: "'v redis \<Rightarrow> string \<Rightarrow> 'v redis" where
  "redis_del r k = AList.delete k r"

text \<open>Glob matching of \<open>KEYS pattern\<close>: \<open>*\<close> matches any run of characters, every other
  character matches itself (the other wildcards of Redis cannot occur in a generated upload
  id and are not modelled).\<close>

fun glob :: "string \<Rightarrow> string \<Rightarrow> bool" where
  "glob [] s = (s = [])"
| "glob (p # ps) [] = (p = CHR ''*'' \<and> glob ps [])"
| "glob (p # ps) (c # cs) =
     (if p = CHR ''*'' then glob ps (c # cs) \<or> glob (p # ps) cs
      else p = c \<and> glob ps cs)"

definition redis_keys :: "'v redis \<Rightarrow> string \<Rightarrow> string list" where
  "redis_keys r pattern = filter (glob pattern) (map fst r)"

text \<open>Decimal rendering of a non-negative integer, as a template literal does, and
  \<open>parseInt(s, 10)\<close> on a string of digits.\<close>

definition digit_char :: "nat \<Rightarrow> char" where
  "digit_char d = ''0123456789'' ! d"

fun show_nat :: "nat \<Rightarrow> string" where
  "show_nat n = (if n < 10 then [digit_char n] else show_nat (n div 10) @ [digit_char (n mod 10)])"

declare show_nat.simps [simp del]

definition is_digit :: "char \<Rightarrow> bool" where
  "is_digit c = (c \<in> set ''0123456789'')"

definition digit_val :: "char \<Rightarrow> nat" where
  "digit_val c = of_char c - 48"

definition parseInt :: "string \<Rightarrow> nat" where
  "parseInt ds = foldl (\<lambda>acc c. 10 * acc + digit_val c) 0 ds"

definition getChunkKey :: "string \<Rightarrow> nat \<Rightarrow> string" where
  "getChunkKey uid idx = ''chunk:'' @ uid @ '':'' @ show_nat idx"

definition getUploadSessionKey :: "string \<Rightarrow> string" where
  "getUploadSessionKey uid = ''upload:'' @ uid"

definition getChunkKeysPattern :: "string \<Rightarrow> string" where
  "getChunkKeysPattern uid = ''chunk:'' @ uid @ '':*''"

section \<open>Storage paths (backend/src/config/storage.ts)\<close>

definition getChunkPath :: "string \<Rightarrow> nat \<Rightarrow> string" where
  "getChunkPath uid idx = ''temp-chunks/'' @ uid @ ''/chunk_'' @ show_nat idx"

definition getFinalFilePath :: "string \<Rightarrow> string \<Rightarrow> string" where
  "getFinalFilePath uid fname = ''datasets/'' @ uid @ ''/'' @ uid @ ''_'' @ fname"

text \<open>\<open>String.prototype.split\<close> at one separator character.\<close>

fun split_on :: "char \<Rightarrow> string \<Rightarrow> string list" where
  "split_on d [] = [[]]"
| "split_on d (c # cs) =
     (if c = d then [] # split_on d cs
      else (case split_on d cs of [] \<Rightarrow> [[c]] | w # ws \<Rightarrow> (c # w) # ws))"

text \<open>
  \<open>path.join\<close> of two arguments on POSIX: the non-empty arguments are joined with a slash
  and the result is normalised. Normalisation walks the segments between slashes with a
  stack: empty segments and \<open>.\<close> are dropped, \<open>..\<close> removes the segment before it (and is
  kept at the front of a relative path when there is none to remove), a leading slash and a
  trailing slash are kept, and an empty result is \<open>.\<close>.
\<close>

definition normalize_step :: "bool \<Rightarrow> string list \<Rightarrow> string \<Rightarrow> string list" where
  "normalize_step allowAboveRoot stack seg =
     (if seg = [] \<or> seg = ''.'' then stack
      else if seg = ''..'' then
        (case stack of
           [] \<Rightarrow> (if allowAboveRoot then [''..''] else [])
         | seg0 # rest \<Rightarrow>
             if seg0 = ''..'' then (if allowAboveRoot then ''..'' # stack else stack) else rest)
      else seg # stack)"

fun join_segments :: "string list \<Rightarrow> string" where
  "join_segments [] = []"
| "join_segments [seg] = seg"
| "join_segments (seg # segs) = seg @ ''/'' @ join_segments segs"

definition normalize :: "string \<Rightarrow> string" where
  "normalize p =
     (if p = [] then ''.''
      else
        (let isAbsolute = (hd p = CHR ''/'');
             trailingSeparator = (last p = CHR ''/'');
             res = join_segments
                     (rev (foldl (normalize_step (\<not> isAbsolute)) [] (split_on (CHR ''/'') p)));
             res' = (if res = [] then (if isAbsolute then [] else if trailingSeparator then ''./'' else ''.'')
                     else if trailingSeparator then res @ ''/'' else res)
         in if isAbsolute \<and> res \<noteq> [] then CHR ''/'' # res'
            else if isAbsolute then ''/'' else res'))"

definition path_join :: "string \<Rightarrow> string \<Rightarrow> string" where
  "path_join a b = normalize (if a = [] then b else if b = [] then a else a @ ''/'' @ b)"

section \<open>System state\<close>

text \<open>
  The \<open>uploads\<close> table keyed by \<open>upload_id\<close>, the two Redis keyspaces, the local file system
  (path to contents; directories are implicit) and the S3 bucket (key to body).
\<close>

record state =
  db :: "string \<rightharpoonup> UploadSession"
  sessionCache :: "UploadSession redis"
  chunkIndexStore :: "ChunkMetadata redis"
  fs :: "string \<rightharpoonup> buffer"
  s3 :: "string \<rightharpoonup> buffer"

section \<open>Upload service (backend/src/services/uploadService.ts)\<close>

text \<open>\<open>getUploadSession\<close>: the Redis cache first, then the table; a row read from the table is
  cached for \<open>expiryHours\<close>.\<close>

definition getUploadSession ::
  "config \<Rightarrow> state \<Rightarrow> string \<Rightarrow> (AppError + UploadSession) \<times> state" where
  "getUploadSession cfg st uid =
     (case redis_get (sessionCache st) (getUploadSessionKey uid) of
        Some cached \<Rightarrow> (Inr cached, st)
      | None \<Rightarrow>
          (case db st uid of
             None \<Rightarrow> (Inl NotFoundError, st)
           | Some row \<Rightarrow>
               (Inr row,
                st\<lparr>sessionCache :=
                     redis_setex (sessionCache st) (getUploadSessionKey uid)
                       (expiryHours cfg * 3600) row\<rparr>)))"

text \<open>\<open>updateUploadStatus\<close>: one unconditional \<open>UPDATE uploads SET status, updated_at
  [, file_path] WHERE upload_id\<close>, then the cache entry is deleted. \<open>file_path\<close> is written
  only when the argument is truthy (present and not the empty string). An \<open>UPDATE\<close> that
  matches no row changes nothing.\<close>

definition updateUploadStatus ::
  "time \<Rightarrow> state \<Rightarrow> string \<Rightarrow> UploadStatus \<Rightarrow> string option \<Rightarrow> state" where
  "updateUploadStatus now st uid new_status fp =
     st\<lparr>db :=
          (case db st uid of
             None \<Rightarrow> db st
           | Some row \<Rightarrow>
               (db st)(uid \<mapsto>
                  row\<lparr>status := new_status, updatedAt := now,
                      filePath := (if fp \<noteq> None \<and> fp \<noteq> Some [] then fp else filePath row)\<rparr>)),
        sessionCache := redis_del (sessionCache st) (getUploadSessionKey uid)\<rparr>"

definition completeUpload_service :: "time \<Rightarrow> state \<Rightarrow> string \<Rightarrow> string \<Rightarrow> state" where
  "completeUpload_service now st uid fp = updateUploadStatus now st uid COMPLETED (Some fp)"

definition failUpload :: "time \<Rightarrow> state \<Rightarrow> string \<Rightarrow> state" where
  "failUpload now st uid = updateUploadStatus now st uid FAILED None"

text \<open>\<open>isUploadExpired\<close>: defined by the service and called by no request handler.\<close>

definition isUploadExpired :: "config \<Rightarrow> time \<Rightarrow> state \<Rightarrow> string \<Rightarrow> (AppError + bool) \<times> state" where
  "isUploadExpired cfg now st uid =
     (case getUploadSession cfg st uid of
        (Inl e, st') \<Rightarrow> (Inl e, st')
      | (Inr session, st') \<Rightarrow> (Inr (now > expiresAt session), st'))"

section \<open>Chunk service (backend/src/services/chunkService.ts)\<close>

text \<open>\<open>useS3\<close> as the constructor computes it.\<close>

definition useS3 :: "config \<Rightarrow> bool" where
  "useS3 cfg = (nodeEnv cfg = ''production'' \<or> s3_endpoint cfg \<noteq> ''http://localhost:9000'')"

record StoreResult =
  alreadyExists :: bool
  size_r :: nat

text \<open>
  \<open>storeChunk\<close>. A chunk whose key is in the index is reported as existing with the recorded
  size and nothing is written. Otherwise the payload goes to the local file
  \<open>tempDir/<uploadId>/chunk_<index>\<close>, its metadata to the index, and, when S3 is in use, the
  payload to S3 as well. The S3 call may fail and the failure is swallowed: \<open>s3ok\<close> says
  whether this call's \<open>putObject\<close> goes through.
\<close>

definition storeChunk ::
  "config \<Rightarrow> time \<Rightarrow> bool \<Rightarrow> state \<Rightarrow> string \<Rightarrow> nat \<Rightarrow> buffer \<Rightarrow> StoreResult \<times> state" where
  "storeChunk cfg now s3ok st uid idx data =
     (let chunkKey = getChunkKey uid idx in
      case redis_get (chunkIndexStore st) chunkKey of
        Some metadata \<Rightarrow> (\<lparr>alreadyExists = True, size_r = size_c metadata\<rparr>, st)
      | None \<Rightarrow>
          (let tempDir' = path_join (tempDir cfg) uid;
               chunkPath = path_join tempDir' (''chunk_'' @ show_nat idx);
               st1 = st\<lparr>fs := (fs st)(chunkPath \<mapsto> data)\<rparr>;
               metadata = \<lparr>uploadId_c = uid, chunkIndex = idx, path = chunkPath,
                           size_c = length data, uploadedAt = now\<rparr>;
               st2 = st1\<lparr>chunkIndexStore :=
                          redis_setex (chunkIndexStore st1) chunkKey (expiryHours cfg * 3600)
                            metadata\<rparr>;
               st3 = (if useS3 cfg \<and> s3ok
                      then st2\<lparr>s3 := (s3 st2)(getChunkPath uid idx \<mapsto> data)\<rparr> else st2)
           in (\<lparr>alreadyExists = False, size_r = length data\<rparr>, st3)))"

definition getChunkMetadata :: "state \<Rightarrow> string \<Rightarrow> nat \<Rightarrow> ChunkMetadata option" where
  "getChunkMetadata st uid idx = redis_get (chunkIndexStore st) (getChunkKey uid idx)"

text \<open>
  The index of a key, as \<open>key.match(/chunk:.*:(\d+)$/)\<close> followed by \<open>parseInt\<close> finds it:
  the key must end in a colon and a non-empty run of digits, and before that colon there
  must be an occurrence of \<open>chunk:\<close> with no line terminator after it.
\<close>

fun chunk_dotstar :: "string \<Rightarrow> bool" where
  "chunk_dotstar [] = False"
| "chunk_dotstar (c # cs) =
     ((take 6 (c # cs) = ''chunk:''
         \<and> CHR 0x0A \<notin> set (drop 6 (c # cs)) \<and> CHR 0x0D \<notin> set (drop 6 (c # cs)))
      \<or> chunk_dotstar cs)"

definition chunkIndexOfKey :: "string \<Rightarrow> nat option" where
  "chunkIndexOfKey key =
     (let d = rev (takeWhile (\<lambda>c. c \<noteq> CHR '':'') (rev key));
          pre = take (length key - length d - 1) key
      in if CHR '':'' \<in> set key \<and> d \<noteq> [] \<and> list_all is_digit d \<and> chunk_dotstar pre
         then Some (parseInt d) else None)"

definition getChunkIndices :: "state \<Rightarrow> string \<Rightarrow> nat list" where
  "getChunkIndices st uid =
     sort (List.map_filter chunkIndexOfKey
             (redis_keys (chunkIndexStore st) (getChunkKeysPattern uid)))"

definition getMissingChunks :: "state \<Rightarrow> string \<Rightarrow> nat \<Rightarrow> nat list" where
  "getMissingChunks st uid ntotal =
     filter (\<lambda>i. i \<notin> set (getChunkIndices st uid)) [0..<ntotal]"

definition getChunkCount :: "state \<Rightarrow> string \<Rightarrow> nat" where
  "getChunkCount st uid = length (getChunkIndices st uid)"

text \<open>
  Reading chunk \<open>i\<close> during reassembly: from S3 when S3 is in use and the \<open>getObject\<close> call
  succeeds (\<open>s3get i\<close> says whether the service answers; a missing object is a failure too),
  otherwise from the local path recorded in the metadata. A failed local read is an
  exception.
\<close>

definition readChunk ::
  "config \<Rightarrow> (nat \<Rightarrow> bool) \<Rightarrow> state \<Rightarrow> string \<Rightarrow> nat \<Rightarrow> ChunkMetadata \<Rightarrow> buffer option" where
  "readChunk cfg s3get st uid i metadata =
     (if useS3 cfg then
        (case (if s3get i then s3 st (getChunkPath uid i) else None) of
           Some body \<Rightarrow> Some body
         | None \<Rightarrow> fs st (path metadata))
      else fs st (path metadata))"

text \<open>The loop \<open>for (i = 0; i < totalChunks; i++)\<close> over the indices still to do; each chunk
  read is appended to the file behind the write stream.\<close>

fun reassemble_loop ::
  "config \<Rightarrow> (nat \<Rightarrow> bool) \<Rightarrow> string \<Rightarrow> string \<Rightarrow> nat list \<Rightarrow> state \<Rightarrow> AppError option \<times> state" where
  "reassemble_loop cfg s3get uid finalFilePath [] st = (None, st)"
| "reassemble_loop cfg s3get uid finalFilePath (i # rest) st =
     (case getChunkMetadata st uid i of
        None \<Rightarrow> (Some NotFoundError, st)
      | Some metadata \<Rightarrow>
          (case readChunk cfg s3get st uid i metadata of
             None \<Rightarrow> (Some InternalError, st)
           | Some chunkData \<Rightarrow>
               reassemble_loop cfg s3get uid finalFilePath rest
                 (st\<lparr>fs := (fs st)(finalFilePath \<mapsto>
                        (case fs st finalFilePath of None \<Rightarrow> [] | Some written \<Rightarrow> written)
                          @ chunkData)\<rparr>)))"

text \<open>
  \<open>reassembleChunks\<close>: refuses with MISSING_CHUNKS unless the number of indexed chunks equals
  \<open>totalChunks\<close>; otherwise opens \<open>finalDir/<uploadId>/<fileName>\<close> for writing (which empties
  it), appends the chunks for \<open>i = 0 .. totalChunks - 1\<close> and returns that local path. When
  S3 is in use the finished file is also put under \<open>getFinalFilePath\<close>; \<open>s3put\<close> says whether
  that call goes through, and its failure is swallowed.
\<close>

definition reassembleChunks ::
  "config \<Rightarrow> (nat \<Rightarrow> bool) \<Rightarrow> bool \<Rightarrow> state \<Rightarrow> string \<Rightarrow> string \<Rightarrow> nat
     \<Rightarrow> (AppError + string) \<times> state" where
  "reassembleChunks cfg s3get s3put st uid fname ntotal =
     (let chunkIndices = getChunkIndices st uid in
      if length chunkIndices \<noteq> ntotal
      then (Inl (MissingChunksError (getMissingChunks st uid ntotal)), st)
      else
        (let finalDir' = path_join (finalDir cfg) uid;
             finalFilePath = path_join finalDir' fname;
             st0 = st\<lparr>fs := (fs st)(finalFilePath \<mapsto> [])\<rparr>
         in case reassemble_loop cfg s3get uid finalFilePath [0..<ntotal] st0 of
              (Some e, st1) \<Rightarrow> (Inl e, st1)
            | (None, st1) \<Rightarrow>
                (Inr finalFilePath,
                 if useS3 cfg \<and> s3put
                 then (case fs st1 finalFilePath of
                         None \<Rightarrow> st1
                       | Some finalFileData \<Rightarrow>
                           st1\<lparr>s3 := (s3 st1)(getFinalFilePath uid fname \<mapsto> finalFileData)\<rparr>)
                 else st1)))"

section \<open>Upload controller: chunk upload (backend/src/controllers/uploadController.ts)\<close>

text \<open>The JSON answer of \<open>POST /api/upload/chunk\<close> without the floating-point percentage.\<close>

record ChunkUploadResponse =
  chunkIndex_r :: nat
  status_r :: string
  uploaded_r :: nat
  total_r :: nat

text \<open>
  \<open>uploadChunk\<close>. The request body has passed the route's schema, so \<open>chunkIndex\<close> is a
  non-negative integer; \<open>data\<close> is the payload that \<open>Buffer.from(data, 'base64')\<close> yields
  (decoding never throws). The \<open>totalChunks\<close> field of the body is read and never used.
\<close>

definition uploadChunk ::
  "config \<Rightarrow> time \<Rightarrow> bool \<Rightarrow> state \<Rightarrow> string \<Rightarrow> nat \<Rightarrow> buffer
     \<Rightarrow> (AppError + ChunkUploadResponse) \<times> state" where
  "uploadChunk cfg now s3ok st uid idx data =
     (case getUploadSession cfg st uid of
        (Inl e, st1) \<Rightarrow> (Inl e, st1)
      | (Inr session, st1) \<Rightarrow>
          if idx < 0 \<or> idx \<ge> totalChunks session then (Inl ValidationFailed, st1)
          else
            (case storeChunk cfg now s3ok st1 uid idx data of
               (result, st2) \<Rightarrow>
                 (let st3 = (if status session = INIT
                             then updateUploadStatus now st2 uid UPLOADING None else st2);
                      uploadedChunks = getChunkCount st3 uid
                  in (Inr \<lparr>chunkIndex_r = idx,
                           status_r = (if alreadyExists result
                                       then ''already_uploaded'' else ''uploaded''),
                           uploaded_r = uploadedChunks, total_r = totalChunks session\<rparr>,
                      st3))))"


section \<open>Validation service (backend/src/services/validationService.ts)\<close>

text \<open>
  The two library functions the service relies on are parameters: the SHA-256 digest of a
  byte string in lowercase hexadecimal (\<open>crypto.createHash('sha256')\<close>, \<open>digest('hex')\<close>) and
  whether \<open>JSON.parse\<close> accepts a text.
\<close>

record externals =
  sha256hex :: "buffer \<Rightarrow> string"
  jsonParses :: "string \<Rightarrow> bool"

text \<open>The messages of a \<open>ValidationResult\<close> are kept as tagged values; its optional
  warnings are left out.\<close>

datatype validation_error =
    TypeNotAllowed string
  | ExtensionNotAllowed string
  | SizeNotPositive
  | SizeExceedsMaximum int int
  | ChecksumMismatch string string
  | ChecksumUnreadable
  | InvalidJSON
  | InvalidJSONLine nat
  | SchemaUnreadable

record ValidationResult =
  isValid :: bool
  errors :: "validation_error list"

definition allowedMimeTypes :: "string list" where
  "allowedMimeTypes =
     [''application/json'', ''application/jsonl'', ''text/json'', ''text/csv'', ''text/plain'',
      ''application/octet-stream'']"

definition allowedExtensions :: "string list" where
  "allowedExtensions = [''.json'', ''.jsonl'', ''.csv'', ''.txt'', ''.bin'', ''.dat'']"

text \<open>\<open>toLowerCase\<close> on the ASCII letters; other characters are left alone.\<close>

definition toLowerCase :: "string \<Rightarrow> string" where
  "toLowerCase s =
     map (\<lambda>c. if 65 \<le> (of_char c :: nat) \<and> (of_char c :: nat) \<le> 90
              then char_of ((of_char c :: nat) + 32) else c) s"

text \<open>
  \<open>path.extname\<close>: trailing slashes are skipped, the base name is what follows the last
  remaining slash, and the extension runs from the last dot of the base name to its end.
  It is empty when the base name has no dot, when the last dot is its first character, or
  when the base name is \<open>..\<close>.
\<close>

definition extname :: "string \<Rightarrow> string" where
  "extname p =
     (let base = rev (takeWhile (\<lambda>c. c \<noteq> CHR ''/'') (dropWhile (\<lambda>c. c = CHR ''/'') (rev p)));
          ext = CHR ''.'' # rev (takeWhile (\<lambda>c. c \<noteq> CHR ''.'') (rev base));
          front = take (length base - length ext) base
      in if CHR ''.'' \<notin> set base \<or> front = [] \<or> base = ''..'' then [] else ext)"

definition endsWith :: "string \<Rightarrow> string \<Rightarrow> bool" where
  "endsWith s suffix =
     (length suffix \<le> length s \<and> drop (length s - length suffix) s = suffix)"

definition validateFileType :: "string \<Rightarrow> string \<Rightarrow> ValidationResult" where
  "validateFileType ftype fname =
     (let errors1 = (if toLowerCase ftype \<notin> set allowedMimeTypes
                     then [TypeNotAllowed ftype] else []);
          ext = toLowerCase (extname fname);
          errors2 = (if ext \<notin> set allowedExtensions then [ExtensionNotAllowed ext] else [])
      in \<lparr>isValid = (errors1 @ errors2 = []), errors = errors1 @ errors2\<rparr>)"

definition validateFileSize :: "int \<Rightarrow> int \<Rightarrow> ValidationResult" where
  "validateFileSize fsize maxSize =
     (if fsize \<le> 0 then \<lparr>isValid = False, errors = [SizeNotPositive]\<rparr>
      else if fsize > maxSize
      then \<lparr>isValid = False, errors = [SizeExceedsMaximum fsize maxSize]\<rparr>
      else \<lparr>isValid = True, errors = []\<rparr>)"

definition calculateChecksum :: "externals \<Rightarrow> buffer \<Rightarrow> string" where
  "calculateChecksum ext content = ''sha256:'' @ sha256hex ext content"

text \<open>\<open>validateChecksum\<close>: an empty expected checksum is accepted unread; an unreadable file
  is a failure; otherwise the two strings are compared with \<open>!==\<close>.\<close>

definition validateChecksum :: "externals \<Rightarrow> state \<Rightarrow> string \<Rightarrow> string \<Rightarrow> ValidationResult" where
  "validateChecksum ext st fpath expectedChecksum =
     (if expectedChecksum = [] then \<lparr>isValid = True, errors = []\<rparr>
      else
        (case fs st fpath of
           None \<Rightarrow> \<lparr>isValid = False, errors = [ChecksumUnreadable]\<rparr>
         | Some content \<Rightarrow>
             (let actualChecksum = calculateChecksum ext content in
              if actualChecksum \<noteq> expectedChecksum
              then \<lparr>isValid = False, errors = [ChecksumMismatch expectedChecksum actualChecksum]\<rparr>
              else \<lparr>isValid = True, errors = []\<rparr>)))"

text \<open>The lines of a text are \<open>split_on\<close> at the line feed; the test
  \<open>line.trim().length > 0\<close> is taken on ASCII white space.\<close>

definition is_space :: "char \<Rightarrow> bool" where
  "is_space c = (c \<in> {CHR 0x20, CHR 0x09, CHR 0x0A, CHR 0x0B, CHR 0x0C, CHR 0x0D})"

definition non_blank :: "string \<Rightarrow> bool" where
  "non_blank line = (\<exists>c \<in> set line. \<not> is_space c)"

definition validateJsonSchema :: "externals \<Rightarrow> state \<Rightarrow> string \<Rightarrow> ValidationResult" where
  "validateJsonSchema ext st fpath =
     (case fs st fpath of
        None \<Rightarrow> \<lparr>isValid = False, errors = [SchemaUnreadable]\<rparr>
      | Some content \<Rightarrow>
          (let e = toLowerCase (extname fpath) in
           if e = ''.json'' then
             (if jsonParses ext content then \<lparr>isValid = True, errors = []\<rparr>
              else \<lparr>isValid = False, errors = [InvalidJSON]\<rparr>)
           else if e = ''.jsonl'' then
             (let lines = filter non_blank (split_on (CHR 0x0A) content);
                  errs = map (\<lambda>i. InvalidJSONLine (i + 1))
                           (filter (\<lambda>i. \<not> jsonParses ext (lines ! i)) [0..<length lines])
              in \<lparr>isValid = (errs = []), errors = errs\<rparr>)
           else \<lparr>isValid = True, errors = []\<rparr>))"

text \<open>\<open>validateFile\<close> collects the errors of the four checks; the checksum is checked only
  when one was given and is not empty, the structure only when the file name ends in
  \<open>.json\<close> or \<open>.jsonl\<close>.\<close>

definition validateFile ::
  "externals \<Rightarrow> state \<Rightarrow> string \<Rightarrow> string \<Rightarrow> string \<Rightarrow> int \<Rightarrow> int \<Rightarrow> string option
     \<Rightarrow> ValidationResult" where
  "validateFile ext st fpath ftype fname fsize maxSize expectedChecksum =
     (let typeValidation = validateFileType ftype fname;
          errors1 = (if \<not> isValid typeValidation then errors typeValidation else []);
          sizeValidation = validateFileSize fsize maxSize;
          errors2 = (if \<not> isValid sizeValidation then errors sizeValidation else []);
          errors3 =
            (case expectedChecksum of
               None \<Rightarrow> []
             | Some c \<Rightarrow>
                 if c = [] then []
                 else (let checksumValidation = validateChecksum ext st fpath c in
                       if \<not> isValid checksumValidation then errors checksumValidation else []));
          errors4 =
            (if endsWith fname ''.json'' \<or> endsWith fname ''.jsonl''
             then (let schemaValidation = validateJsonSchema ext st fpath in
                   if \<not> isValid schemaValidation then errors schemaValidation else [])
             else []);
          all_errors = errors1 @ errors2 @ errors3 @ errors4
      in \<lparr>isValid = (all_errors = []), errors = all_errors\<rparr>)"

section \<open>Upload controller: completion (backend/src/controllers/uploadController.ts)\<close>

text \<open>The JSON answer of \<open>POST /api/upload/complete\<close> without the \<open>aiPipeline\<close> block, which
  comes from placeholder code that touches no state and cannot fail.\<close>

record CompleteResponse =
  uploadId_cr :: string
  status_cr :: string
  filePath_cr :: string

text \<open>
  \<open>completeUpload\<close>: load the session, set ASSEMBLING, reassemble (on an exception mark the
  session FAILED and rethrow), validate the assembled file (when invalid mark the session
  FAILED and throw VALIDATION_ERROR), set COMPLETED with the file path and answer. The
  metadata extraction swallows its own errors and changes nothing; the clean-up of the
  temporary chunks is started without being awaited and is not part of this step.
\<close>

definition completeUpload ::
  "config \<Rightarrow> externals \<Rightarrow> time \<Rightarrow> (nat \<Rightarrow> bool) \<Rightarrow> bool \<Rightarrow> state \<Rightarrow> string
     \<Rightarrow> (AppError + CompleteResponse) \<times> state" where
  "completeUpload cfg ext now s3get s3put st uid =
     (case getUploadSession cfg st uid of
        (Inl e, st1) \<Rightarrow> (Inl e, st1)
      | (Inr session, st1) \<Rightarrow>
          (let st2 = updateUploadStatus now st1 uid ASSEMBLING None in
           case reassembleChunks cfg s3get s3put st2 uid (fileName session) (totalChunks session) of
             (Inl e, st3) \<Rightarrow> (Inl e, failUpload now st3 uid)
           | (Inr finalFilePath, st3) \<Rightarrow>
               (let validation =
                      validateFile ext st3 finalFilePath (fileType session) (fileName session)
                        (fileSize session) (maxFileSize cfg) (checksum session)
                in if \<not> isValid validation then (Inl ValidationFailed, failUpload now st3 uid)
                   else
                     (Inr \<lparr>uploadId_cr = uid, status_cr = ''completed'',
                           filePath_cr = finalFilePath\<rparr>,
                      completeUpload_service now st3 uid finalFilePath))))"

section \<open>Client-side splitting and upload runs\<close>

text \<open>The local paths that \<open>storeChunk\<close> and \<open>reassembleChunks\<close> build with \<open>path.join\<close>.\<close>

definition localChunkPath :: "config \<Rightarrow> string \<Rightarrow> nat \<Rightarrow> string" where
  "localChunkPath cfg uid idx = path_join (path_join (tempDir cfg) uid) (''chunk_'' @ show_nat idx)"

definition localFinalPath :: "config \<Rightarrow> string \<Rightarrow> string \<Rightarrow> string" where
  "localFinalPath cfg uid fname = path_join (path_join (finalDir cfg) uid) fname"

text \<open>A path segment that normalisation keeps as it is, and what \<open>path.join\<close> puts in
  front of such a segment.\<close>

definition simple_segment :: "string \<Rightarrow> bool" where
  "simple_segment b = (b \<noteq> [] \<and> CHR ''/'' \<notin> set b \<and> b \<noteq> ''.'' \<and> b \<noteq> ''..'')"

definition join_front :: "string \<Rightarrow> string" where
  "join_front a =
     (if a = [] then []
      else
        (let stack = foldl (normalize_step (hd a \<noteq> CHR ''/'')) [] (split_on (CHR ''/'') a)
         in (if hd a = CHR ''/'' then ''/'' else [])
            @ (if stack = [] then [] else join_segments (rev stack) @ ''/'')))"

text \<open>A client cuts a blob \<open>B\<close> into chunks of \<open>C\<close> bytes, the last one possibly short; there
  are \<open>ceil (N / C)\<close> of them, the count \<open>initializeUpload\<close> computes with \<open>Math.ceil\<close>.\<close>

definition split_chunk :: "nat \<Rightarrow> buffer \<Rightarrow> nat \<Rightarrow> buffer" where
  "split_chunk C B i = take C (drop (i * C) B)"

definition ceil_div :: "nat \<Rightarrow> nat \<Rightarrow> nat" where
  "ceil_div N C = (N + C - 1) div C"

text \<open>A run of \<open>storeChunk\<close> calls for one session: each call names its instant, its S3 outcome
  and the index it uploads; the payload of index \<open>i\<close> is \<open>payload i\<close>.\<close>

fun upload_all ::
  "config \<Rightarrow> string \<Rightarrow> (nat \<Rightarrow> buffer) \<Rightarrow> (time \<times> bool \<times> nat) list \<Rightarrow> state \<Rightarrow> state" where
  "upload_all cfg uid payload [] st = st"
| "upload_all cfg uid payload ((now, s3ok, i) # calls) st =
     upload_all cfg uid payload calls (snd (storeChunk cfg now s3ok st uid i (payload i)))"

text \<open>An upload id without line terminators (the \<open>.\<close> of the key pattern does not match
  them); every generated id, \<open>upl_\<close> and 32 hexadecimal digits, is one.\<close>

definition single_line :: "string \<Rightarrow> bool" where
  "single_line s = (CHR 0x0A \<notin> set s \<and> CHR 0x0D \<notin> set s)"

text \<open>
  What holds of the chunks of session \<open>uid\<close> once the indices in \<open>S\<close> have been stored with
  payloads \<open>payload\<close>: the index keys of the session are exactly those of \<open>S\<close>, each once;
  each records the local path of its chunk, which holds the payload; and S3 has, for any
  chunk of the session, either nothing or the payload.
\<close>

definition chunks_inv :: "config \<Rightarrow> string \<Rightarrow> (nat \<Rightarrow> buffer) \<Rightarrow> nat set \<Rightarrow> state \<Rightarrow> bool" where
  "chunks_inv cfg uid payload S st =
     (set (redis_keys (chunkIndexStore st) (getChunkKeysPattern uid)) = getChunkKey uid ` S
      \<and> distinct (redis_keys (chunkIndexStore st) (getChunkKeysPattern uid))
      \<and> (\<forall>i\<in>S. \<exists>md. getChunkMetadata st uid i = Some md
                     \<and> path md = localChunkPath cfg uid i
                     \<and> fs st (localChunkPath cfg uid i) = Some (payload i))
      \<and> (\<forall>i. s3 st (getChunkPath uid i) = None \<or> s3 st (getChunkPath uid i) = Some (payload i)))"



section \<open>The state machine of the specification\<close>

text \<open>The legal edges as the specification draws them: INIT to UPLOADING to ASSEMBLING to
  COMPLETED, and from each of the three non-terminal states to FAILED.\<close>

fun spec_legal_transition :: "UploadStatus \<Rightarrow> UploadStatus \<Rightarrow> bool" where
  "spec_legal_transition INIT UPLOADING = True"
| "spec_legal_transition UPLOADING ASSEMBLING = True"
| "spec_legal_transition ASSEMBLING COMPLETED = True"
| "spec_legal_transition INIT FAILED = True"
| "spec_legal_transition UPLOADING FAILED = True"
| "spec_legal_transition ASSEMBLING FAILED = True"
| "spec_legal_transition _ _ = False"

section \<open>Example states\<close>

definition session0 :: UploadSession where
  "session0 =
     \<lparr>uploadId = ''upl_1'', userId = None, fileName = ''hello.txt'', fileSize = 11,
      fileType = ''text/plain'', checksum = None, totalChunks = 3, status = INIT,
      filePath = None, createdAt = 0, updatedAt = 0, expiresAt = 86400000\<rparr>"

definition state_with :: "UploadSession \<Rightarrow> state" where
  "state_with s =
     \<lparr>db = [uploadId s \<mapsto> s], sessionCache = [], chunkIndexStore = [],
      fs = Map.empty, s3 = Map.empty\<rparr>"

text \<open>The default configuration with chunks of four bytes.\<close>

definition config4 :: config where
  "config4 = default_config\<lparr>chunkSize := 4\<rparr>"

text \<open>The state in which chunk 0 of the session has been stored while the session row still
  says INIT, as it is between the two steps of the first chunk upload.\<close>

definition state_chunk0_stored :: state where
  "state_chunk0_stored = snd (storeChunk default_config 1 False (state_with session0) ''upl_1'' 0 ''HELL'')"

text \<open>A stand-in for the two library functions, for evaluating examples: every digest is
  \<open>00\<close> and every text parses. No example below depends on the digest beyond its being
  different from the expected one.\<close>

definition stub_externals :: externals where
  "stub_externals = \<lparr>sha256hex = (\<lambda>content. ''00''), jsonParses = (\<lambda>text. True)\<rparr>"

text \<open>The configuration of a production deployment, where S3 is in use.\<close>

definition prod_config :: config where
  "prod_config = default_config\<lparr>nodeEnv := ''production''\<rparr>"

text \<open>The session of the examples in UPLOADING, without a checksum and with two expected
  checksums that the assembled file does not have.\<close>

definition session_uploading :: UploadSession where
  "session_uploading = session0\<lparr>status := UPLOADING\<rparr>"

definition session_sha :: UploadSession where
  "session_sha = session0\<lparr>status := UPLOADING, checksum := Some ''sha256:deadbeef''\<rparr>"


text \<open>The state after a run of chunk uploads for the eleven bytes \<open>HELLOWORLD!\<close> cut into
  chunks of four, starting from a store that holds only the session; a run that leaves out
  chunk 1, and a run that uploads all three chunks.\<close>

definition example_uploaded :: "config \<Rightarrow> UploadSession \<Rightarrow> (time \<times> bool \<times> nat) list \<Rightarrow> state" where
  "example_uploaded cfg s calls =
     upload_all cfg ''upl_1'' (split_chunk 4 ''HELLOWORLD!'') calls (state_with s)"

definition calls_gap :: "(time \<times> bool \<times> nat) list" where
  "calls_gap = [(1, False, 0), (2, False, 2)]"

definition calls_full :: "(time \<times> bool \<times> nat) list" where
  "calls_full = [(1, True, 2), (2, True, 0), (3, True, 1)]"

section \<open>Keys, digits and paths\<close>

lemma digit_cases: "d < 10 \<Longrightarrow> d \<in> {0, 1, 2, 3, 4, 5, 6, 7, 8, 9::nat}"
  by auto

lemma digit_char_props:
  assumes "d < 10"
  shows "is_digit (digit_char d)" "digit_val (digit_char d) = d" "digit_char d \<noteq> CHR '':''"
  using digit_cases [OF assms]
  by (auto simp add: digit_char_def is_digit_def digit_val_def)

lemma show_nat_digits: "c \<in> set (show_nat n) \<Longrightarrow> is_digit c"
proof (induction n arbitrary: c rule: show_nat.induct)
  case (1 n)
  show ?case
  proof (cases "n < 10")
    case True
    with "1.prems" show ?thesis
      by (simp add: show_nat.simps [of n] digit_char_props)
  next
    case False
    with "1.prems" "1.IH" show ?thesis
      by (auto simp add: show_nat.simps [of n] digit_char_props)
  qed
qed

lemma show_nat_nonempty: "show_nat n \<noteq> []"
  by (simp add: show_nat.simps [of n])

lemma parseInt_snoc: "parseInt (ds @ [c]) = 10 * parseInt ds + digit_val c"
  by (simp add: parseInt_def)

lemma parseInt_show_nat: "parseInt (show_nat n) = n"
proof (induction n rule: show_nat.induct)
  case (1 n)
  show ?case
  proof (cases "n < 10")
    case True
    then show ?thesis
      by (simp add: show_nat.simps [of n] parseInt_def digit_char_props)
  next
    case False
    with "1.IH" show ?thesis
      by (simp add: show_nat.simps [of n] parseInt_snoc digit_char_props)
  qed
qed

lemma show_nat_inj: "show_nat a = show_nat b \<Longrightarrow> a = b"
  by (metis parseInt_show_nat)

lemma is_digit_not_colon: "is_digit c \<Longrightarrow> c \<noteq> CHR '':''"
  by (auto simp add: is_digit_def)

lemma show_nat_no_colon: "CHR '':'' \<notin> set (show_nat n)"
  using show_nat_digits is_digit_not_colon by blast

lemma glob_star_skip: "glob ps s \<Longrightarrow> glob (CHR ''*'' # ps) s"
  by (cases s) auto

lemma glob_refl_star: "glob (p @ ''*'') (p @ s)"
proof (induction p)
  case Nil
  show ?case by (induction s) auto
next
  case (Cons c p)
  then show ?case by (auto intro: glob_star_skip)
qed

lemma getChunkKey_matches: "glob (getChunkKeysPattern uid) (getChunkKey uid i)"
  using glob_refl_star [of "''chunk:'' @ uid @ '':''" "show_nat i"]
  by (simp add: getChunkKeysPattern_def getChunkKey_def)

lemma chunkIndexOfKey_getChunkKey:
  assumes "single_line uid"
  shows "chunkIndexOfKey (getChunkKey uid i) = Some i"
proof -
  let ?key = "getChunkKey uid i"
  have rk: "rev ?key = rev (show_nat i) @ CHR '':'' # rev (''chunk:'' @ uid)"
    by (simp add: getChunkKey_def)
  have tw: "takeWhile (\<lambda>c. c \<noteq> CHR '':'') (rev ?key) = rev (show_nat i)"
    unfolding rk using show_nat_no_colon [of i]
    by (subst takeWhile_append2) auto
  have pre: "take (length ?key - length (show_nat i) - 1) ?key = ''chunk:'' @ uid"
  proof -
    define front where "front = ''chunk:'' @ uid"
    have k: "?key = front @ CHR '':'' # show_nat i"
      by (simp add: getChunkKey_def front_def)
    show ?thesis unfolding k front_def [symmetric] by simp
  qed
  have dot: "chunk_dotstar (''chunk:'' @ uid)"
    using assms by (simp add: single_line_def)
  have dig: "list_all is_digit (show_nat i)"
    using show_nat_digits by (auto simp add: list_all_iff)
  have col: "CHR '':'' \<in> set ?key"
    by (simp add: getChunkKey_def)
  show ?thesis
    unfolding chunkIndexOfKey_def Let_def tw rev_rev_ident pre
    using dot dig col show_nat_nonempty [of i] by (simp add: parseInt_show_nat)
qed

lemma getChunkKey_inj: "getChunkKey uid i = getChunkKey uid j \<Longrightarrow> i = j"
  by (simp add: getChunkKey_def show_nat_inj)

lemma getChunkPath_inj: "getChunkPath uid i = getChunkPath uid j \<Longrightarrow> i = j"
  by (simp add: getChunkPath_def show_nat_inj)

section \<open>Normalised paths\<close>

lemma split_on_nonempty: "split_on d s \<noteq> []"
  by (induction s) (auto split: list.splits)

lemma split_on_no_sep: "d \<notin> set s \<Longrightarrow> split_on d s = [s]"
  by (induction s) auto

lemma split_on_append: "d \<notin> set b \<Longrightarrow> split_on d (a @ d # b) = split_on d a @ [b]"
proof (induction a)
  case Nil
  then show ?case by (simp add: split_on_no_sep)
next
  case (Cons c a)
  then show ?case
    using split_on_nonempty [of d a] by (cases "split_on d a") auto
qed

lemma join_segments_snoc:
  "join_segments (segs @ [b]) = (if segs = [] then b else join_segments segs @ ''/'' @ b)"
  by (induction segs rule: join_segments.induct) auto

lemma join_segments_snoc_nonempty: "b \<noteq> [] \<Longrightarrow> join_segments (segs @ [b]) \<noteq> []"
  by (simp add: join_segments_snoc)

lemma path_join_simple:
  assumes "simple_segment b"
  shows "path_join a b = join_front a @ b"
proof (cases "a = []")
  case True
  from assms have b: "b \<noteq> []" "CHR ''/'' \<notin> set b" "b \<noteq> ''.''" "b \<noteq> ''..''"
    by (simp_all add: simple_segment_def)
  have h: "hd b \<noteq> CHR ''/''" using b(1,2) by (cases b) auto
  have l: "last b \<noteq> CHR ''/''" using b(1,2) last_in_set by metis
  show ?thesis
    using True b h l
    by (simp add: path_join_def normalize_def Let_def split_on_no_sep normalize_step_def join_front_def)
next
  case False
  from assms have b: "b \<noteq> []" "CHR ''/'' \<notin> set b" "b \<noteq> ''.''" "b \<noteq> ''..''"
    by (simp_all add: simple_segment_def)
  let ?p = "a @ ''/'' @ b"
  have hd: "hd ?p = hd a" using False by simp
  have "last ?p = last b" using b(1) by simp
  then have l: "last ?p \<noteq> CHR ''/''" using b(1,2) last_in_set [of b] by metis
  have sp: "split_on (CHR ''/'') ?p = split_on (CHR ''/'') a @ [b]"
    using split_on_append [OF b(2), of a] by simp
  let ?stack = "foldl (normalize_step (hd a \<noteq> CHR ''/'')) [] (split_on (CHR ''/'') a)"
  have fl: "foldl (normalize_step (hd a \<noteq> CHR ''/'')) [] (split_on (CHR ''/'') ?p) = b # ?stack"
    unfolding sp using b by (simp add: normalize_step_def)
  have js: "join_segments (rev (b # ?stack))
              = (if ?stack = [] then b else join_segments (rev ?stack) @ ''/'' @ b)"
    using join_segments_snoc [of "rev ?stack" b] by simp
  have ne: "join_segments (rev (b # ?stack)) \<noteq> []"
    unfolding js using b(1) by simp
  have pne: "?p \<noteq> []" by simp
  have nz: "normalize ?p = (if hd a = CHR ''/'' then ''/'' else []) @ join_segments (rev (b # ?stack))"
    unfolding normalize_def Let_def hd fl
    using pne l b(1) by (auto simp add: join_segments_snoc_nonempty)
  have "path_join a b = normalize ?p" using False b(1) by (simp add: path_join_def)
  also note nz
  also have "(if hd a = CHR ''/'' then ''/'' else []) @ join_segments (rev (b # ?stack))
               = join_front a @ b"
    unfolding js using False by (simp add: join_front_def Let_def)
  finally show ?thesis .
qed

lemma is_digit_not_slash: "is_digit c \<Longrightarrow> c \<noteq> CHR ''/''"
  by (auto simp add: is_digit_def)

lemma chunk_segment_simple: "simple_segment (''chunk_'' @ show_nat i)"
  using show_nat_digits [of "CHR ''/''" i] is_digit_not_slash
  by (auto simp add: simple_segment_def)

lemma example_paths:
  "path_join ''./uploads/temp'' ''upl_1'' = ''uploads/temp/upl_1''"
  "path_join ''./uploads/final'' ''upl_1'' = ''uploads/final/upl_1''"
  "path_join ''uploads/temp/upl_1'' ''chunk_0'' = ''uploads/temp/upl_1/chunk_0''"
  "path_join ''uploads/temp/upl_1'' ''chunk_1'' = ''uploads/temp/upl_1/chunk_1''"
  "path_join ''uploads/temp/upl_1'' ''chunk_2'' = ''uploads/temp/upl_1/chunk_2''"
  "path_join ''uploads/final/upl_1'' ''hello.txt'' = ''uploads/final/upl_1/hello.txt''"
  by (simp_all add: path_join_def normalize_def normalize_step_def Let_def)

section \<open>Storing chunks\<close>

lemma localChunkPath_front:
  "localChunkPath cfg uid i = join_front (path_join (tempDir cfg) uid) @ ''chunk_'' @ show_nat i"
  unfolding localChunkPath_def by (rule path_join_simple [OF chunk_segment_simple])

lemma localChunkPath_inj: "localChunkPath cfg uid i = localChunkPath cfg uid j \<Longrightarrow> i = j"
  by (simp add: localChunkPath_front show_nat_inj)



lemma split_concat_take:
  "concat (map (split_chunk C B) [0..<k]) = take (k * C) B"
proof (induction k)
  case 0
  show ?case by simp
next
  case (Suc k)
  have "take (k * C) B @ take C (drop (k * C) B) = take (k * C + C) B"
    by (simp add: take_add)
  with Suc show ?case by (simp add: split_chunk_def add.commute)
qed

lemma ceil_div_covers: "0 < C \<Longrightarrow> N \<le> ceil_div N C * C"
proof -
  assume c: "0 < C"
  have "(N + C - 1) = (N + C - 1) div C * C + (N + C - 1) mod C" by simp
  moreover have "(N + C - 1) mod C < C" using c by simp
  ultimately show ?thesis unfolding ceil_div_def by linarith
qed

lemma split_roundtrip:
  "0 < C \<Longrightarrow> concat (map (split_chunk C B) [0..<ceil_div (length B) C]) = B"
  by (simp add: split_concat_take ceil_div_covers)

lemma redis_keys_setex_new:
  "redis_get r k = None \<Longrightarrow>
   redis_keys (redis_setex r k secs v) pat = redis_keys r pat @ (if glob pat k then [k] else [])"
  by (simp add: redis_keys_def redis_setex_def redis_get_def update_keys map_of_eq_None_iff image_iff)

lemma redis_get_setex_other: "k' \<noteq> k \<Longrightarrow> redis_get (redis_setex r k secs v) k' = redis_get r k'"
  by (simp add: redis_get_def redis_setex_def update_conv')

lemma redis_get_setex_same: "redis_get (redis_setex r k secs v) k = Some v"
  by (simp add: redis_get_def redis_setex_def update_conv')

lemma redis_get_Some_key: "redis_get r k = Some v \<Longrightarrow> glob pat k \<Longrightarrow> k \<in> set (redis_keys r pat)"
  by (auto simp add: redis_get_def redis_keys_def dest: map_of_SomeD intro: rev_image_eqI)

lemma redis_get_None_key: "redis_get r k = None \<Longrightarrow> k \<notin> set (redis_keys r pat)"
  by (auto simp add: redis_get_def redis_keys_def map_of_eq_None_iff)

lemma storeChunk_inv:
  assumes inv: "chunks_inv cfg uid payload S st"
  shows "chunks_inv cfg uid payload (insert i S) (snd (storeChunk cfg now s3ok st uid i (payload i)))"
proof (cases "redis_get (chunkIndexStore st) (getChunkKey uid i)")
  case (Some md)
  then have "getChunkKey uid i \<in> set (redis_keys (chunkIndexStore st) (getChunkKeysPattern uid))"
    by (rule redis_get_Some_key) (rule getChunkKey_matches)
  with inv have "getChunkKey uid i \<in> getChunkKey uid ` S" by (simp add: chunks_inv_def)
  then have "i \<in> S" by (auto dest: getChunkKey_inj)
  then have "insert i S = S" by auto
  moreover have "snd (storeChunk cfg now s3ok st uid i (payload i)) = st"
    using Some by (simp add: storeChunk_def)
  ultimately show ?thesis using inv by simp
next
  case None
  let ?k = "getChunkKey uid i"
  let ?p = "localChunkPath cfg uid i"
  let ?md = "\<lparr>uploadId_c = uid, chunkIndex = i, path = ?p, size_c = length (payload i), uploadedAt = now\<rparr>"
  let ?st' = "snd (storeChunk cfg now s3ok st uid i (payload i))"
  have idx: "chunkIndexStore ?st' = redis_setex (chunkIndexStore st) ?k (expiryHours cfg * 3600) ?md"
    using None by (simp add: storeChunk_def Let_def localChunkPath_def)
  have fs': "fs ?st' = (fs st)(?p \<mapsto> payload i)"
    using None by (simp add: storeChunk_def Let_def localChunkPath_def)
  have s3': "s3 ?st' = s3 st \<or> s3 ?st' = (s3 st)(getChunkPath uid i \<mapsto> payload i)"
    using None by (simp add: storeChunk_def Let_def)
  have keys: "redis_keys (chunkIndexStore ?st') (getChunkKeysPattern uid)
                = redis_keys (chunkIndexStore st) (getChunkKeysPattern uid) @ [?k]"
    unfolding idx using None by (simp add: redis_keys_setex_new getChunkKey_matches)
  have notin: "?k \<notin> set (redis_keys (chunkIndexStore st) (getChunkKeysPattern uid))"
    using None by (rule redis_get_None_key)
  have a: "set (redis_keys (chunkIndexStore ?st') (getChunkKeysPattern uid)) = getChunkKey uid ` insert i S"
    using inv by (simp add: keys chunks_inv_def)
  have b: "distinct (redis_keys (chunkIndexStore ?st') (getChunkKeysPattern uid))"
    using inv notin by (simp add: keys chunks_inv_def)
  have c: "\<exists>md. getChunkMetadata ?st' uid j = Some md \<and> path md = localChunkPath cfg uid j
                \<and> fs ?st' (localChunkPath cfg uid j) = Some (payload j)" if "j \<in> insert i S" for j
  proof (cases "j = i")
    case True
    then show ?thesis by (simp add: getChunkMetadata_def idx fs' redis_get_setex_same)
  next
    case False
    with that have "j \<in> S" by simp
    with inv obtain md where md: "getChunkMetadata st uid j = Some md" "path md = localChunkPath cfg uid j"
        "fs st (localChunkPath cfg uid j) = Some (payload j)"
      by (auto simp add: chunks_inv_def)
    have k: "getChunkKey uid j \<noteq> ?k" using False getChunkKey_inj by blast
    have p: "localChunkPath cfg uid j \<noteq> ?p" using False localChunkPath_inj by blast
    show ?thesis using md k p
      by (simp add: getChunkMetadata_def idx fs' redis_get_setex_other)
  qed
  have d: "s3 ?st' (getChunkPath uid j) = None \<or> s3 ?st' (getChunkPath uid j) = Some (payload j)" for j
  proof -
    from inv have old: "s3 st (getChunkPath uid j) = None \<or> s3 st (getChunkPath uid j) = Some (payload j)"
      by (simp add: chunks_inv_def)
    from s3' show ?thesis
    proof
      assume "s3 ?st' = s3 st" with old show ?thesis by simp
    next
      assume u: "s3 ?st' = (s3 st)(getChunkPath uid i \<mapsto> payload i)"
      show ?thesis
      proof (cases "j = i")
        case True then show ?thesis by (simp add: u)
      next
        case False
        then have "getChunkPath uid j \<noteq> getChunkPath uid i" using getChunkPath_inj by blast
        with old show ?thesis by (simp add: u)
      qed
    qed
  qed
  show ?thesis unfolding chunks_inv_def using a b c d by blast
qed

lemma upload_all_inv:
  "chunks_inv cfg uid payload S st \<Longrightarrow>
   chunks_inv cfg uid payload (S \<union> set (map (\<lambda>c. snd (snd c)) calls)) (upload_all cfg uid payload calls st)"
proof (induction calls arbitrary: S st)
  case Nil
  then show ?case by simp
next
  case (Cons c calls)
  obtain now s3ok i where c: "c = (now, s3ok, i)" by (cases c) auto
  from storeChunk_inv [OF Cons.prems, of i now s3ok]
  have "chunks_inv cfg uid payload (insert i S) (snd (storeChunk cfg now s3ok st uid i (payload i)))" .
  from Cons.IH [OF this]
  have "chunks_inv cfg uid payload (insert i S \<union> set (map (\<lambda>c. snd (snd c)) calls))
          (upload_all cfg uid payload (c # calls) st)"
    by (simp add: c)
  moreover have "insert i S \<union> set (map (\<lambda>c. snd (snd c)) calls)
                   = S \<union> set (map (\<lambda>c. snd (snd c)) (c # calls))"
    by (simp add: c)
  ultimately show ?case by simp
qed

lemma storeChunk_present:
  "getChunkMetadata st uid idx = Some md \<Longrightarrow>
   storeChunk cfg now s3ok st uid idx data = (\<lparr>alreadyExists = True, size_r = size_c md\<rparr>, st)"
  by (simp add: storeChunk_def getChunkMetadata_def)

lemma storeChunk_absent:
  "getChunkMetadata st uid idx = None \<Longrightarrow> storeChunk cfg now s3ok st uid idx data = (r, st') \<Longrightarrow>
   r = \<lparr>alreadyExists = False, size_r = length data\<rparr> \<and>
   (\<exists>md. getChunkMetadata st' uid idx = Some md \<and> size_c md = length data)"
  by (auto simp add: storeChunk_def getChunkMetadata_def Let_def redis_get_setex_same)

lemma storeChunk_records:
  "storeChunk cfg now s3ok st uid idx data = (r, st') \<Longrightarrow>
   \<exists>md. getChunkMetadata st' uid idx = Some md \<and> size_c md = size_r r"
  by (cases "getChunkMetadata st uid idx")
     (auto simp add: storeChunk_def getChunkMetadata_def Let_def redis_get_setex_same)


section \<open>Reassembly\<close>

lemma reassemble_loop_reads:
  assumes "fs st fp = Some w"
      and "\<forall>i\<in>set todo. \<exists>md. getChunkMetadata st uid i = Some md \<and> path md \<noteq> fp
                              \<and> fs st (path md) = Some (payload i)"
      and "\<forall>i\<in>set todo. s3 st (getChunkPath uid i) = None \<or> s3 st (getChunkPath uid i) = Some (payload i)"
  shows "reassemble_loop cfg s3get uid fp todo st
           = (None, st\<lparr>fs := (fs st)(fp \<mapsto> w @ concat (map payload todo))\<rparr>)"
  using assms
proof (induction todo arbitrary: st w)
  case Nil
  then show ?case by (simp add: fun_upd_idem)
next
  case (Cons i todo)
  from Cons.prems(2) obtain md where md: "getChunkMetadata st uid i = Some md" "path md \<noteq> fp"
      "fs st (path md) = Some (payload i)" by auto
  from Cons.prems(3) have s3i: "s3 st (getChunkPath uid i) = None \<or> s3 st (getChunkPath uid i) = Some (payload i)"
    by simp
  have rd: "readChunk cfg s3get st uid i md = Some (payload i)"
    using md(3) s3i by (auto simp add: readChunk_def)
  let ?sta = "st\<lparr>fs := (fs st)(fp \<mapsto> w @ payload i)\<rparr>"
  have step: "reassemble_loop cfg s3get uid fp (i # todo) st = reassemble_loop cfg s3get uid fp todo ?sta"
    using md(1) rd Cons.prems(1) by simp
  have p1: "fs ?sta fp = Some (w @ payload i)" by simp
  have p2: "\<forall>j\<in>set todo. \<exists>md. getChunkMetadata ?sta uid j = Some md \<and> path md \<noteq> fp
                              \<and> fs ?sta (path md) = Some (payload j)"
    using Cons.prems(2) by (auto simp add: getChunkMetadata_def)
  have p3: "\<forall>j\<in>set todo. s3 ?sta (getChunkPath uid j) = None \<or> s3 ?sta (getChunkPath uid j) = Some (payload j)"
    using Cons.prems(3) by simp
  have "reassemble_loop cfg s3get uid fp todo ?sta
          = (None, ?sta\<lparr>fs := (fs ?sta)(fp \<mapsto> (w @ payload i) @ concat (map payload todo))\<rparr>)"
    by (rule Cons.IH [OF p1 p2 p3])
  also have "?sta\<lparr>fs := (fs ?sta)(fp \<mapsto> (w @ payload i) @ concat (map payload todo))\<rparr>
               = st\<lparr>fs := (fs st)(fp \<mapsto> w @ concat (map payload (i # todo)))\<rparr>"
    by simp
  finally show ?case unfolding step .
qed

lemma length_map_filter_all:
  "\<forall>k\<in>set ks. f k \<noteq> None \<Longrightarrow> length (List.map_filter f ks) = length ks"
  by (induction ks) (auto simp add: map_filter_simps)

lemma set_map_filter_Some:
  "set (List.map_filter f ks) = {y. \<exists>k\<in>set ks. f k = Some y}"
  by (induction ks) (auto simp add: map_filter_simps split: option.splits)

lemma getChunkIndices_length:
  assumes "single_line uid" and "chunks_inv cfg uid payload S st" and "finite S"
  shows "length (getChunkIndices st uid) = card S"
proof -
  let ?ks = "redis_keys (chunkIndexStore st) (getChunkKeysPattern uid)"
  from assms(2) have ks: "set ?ks = getChunkKey uid ` S" "distinct ?ks"
    by (simp_all add: chunks_inv_def)
  have all: "\<forall>k\<in>set ?ks. chunkIndexOfKey k \<noteq> None"
    using ks(1) chunkIndexOfKey_getChunkKey [OF assms(1)] by auto
  have "length (List.map_filter chunkIndexOfKey ?ks) = length ?ks"
    using all by (rule length_map_filter_all)
  also have "\<dots> = card (set ?ks)" using ks(2) by (simp add: distinct_card)
  also have "\<dots> = card S"
    unfolding ks(1) by (rule card_image) (auto simp add: inj_on_def dest: getChunkKey_inj)
  finally show ?thesis by (simp add: getChunkIndices_def)
qed

lemma getChunkIndices_set:
  assumes "single_line uid" and "chunks_inv cfg uid payload S st"
  shows "set (getChunkIndices st uid) = S"
proof -
  let ?ks = "redis_keys (chunkIndexStore st) (getChunkKeysPattern uid)"
  from assms(2) have ks: "set ?ks = getChunkKey uid ` S" by (simp add: chunks_inv_def)
  have "set (List.map_filter chunkIndexOfKey ?ks) = {i. \<exists>k\<in>set ?ks. chunkIndexOfKey k = Some i}"
    by (rule set_map_filter_Some)
  also have "\<dots> = S"
    unfolding ks using chunkIndexOfKey_getChunkKey [OF assms(1)] by auto
  finally show ?thesis by (simp add: getChunkIndices_def)
qed

lemma fresh_inv:
  assumes "redis_keys (chunkIndexStore st) (getChunkKeysPattern uid) = []"
      and "\<forall>i. s3 st (getChunkPath uid i) = None"
  shows "chunks_inv cfg uid payload {} st"
  using assms by (simp add: chunks_inv_def)

lemma chunks_inv_cong:
  "chunkIndexStore st' = chunkIndexStore st \<Longrightarrow> fs st' = fs st \<Longrightarrow> s3 st' = s3 st \<Longrightarrow>
   chunks_inv cfg uid payload S st' = chunks_inv cfg uid payload S st"
  by (simp add: chunks_inv_def getChunkMetadata_def)

lemma reassemble_from_inv:
  assumes uid: "single_line uid"
      and inv: "chunks_inv cfg uid payload {0..<n} st"
      and apart: "\<forall>i<n. localChunkPath cfg uid i \<noteq> localFinalPath cfg uid fname"
  shows "reassembleChunks cfg s3get s3put st uid fname n
           = (Inr (localFinalPath cfg uid fname),
              if useS3 cfg \<and> s3put
              then st\<lparr>fs := (fs st)(localFinalPath cfg uid fname \<mapsto> concat (map payload [0..<n])),
                      s3 := (s3 st)(getFinalFilePath uid fname \<mapsto> concat (map payload [0..<n]))\<rparr>
              else st\<lparr>fs := (fs st)(localFinalPath cfg uid fname \<mapsto> concat (map payload [0..<n]))\<rparr>)"
proof -
  let ?fp = "localFinalPath cfg uid fname"
  have len: "length (getChunkIndices st uid) = n"
    using getChunkIndices_length [OF uid inv] by simp
  let ?stz = "st\<lparr>fs := (fs st)(?fp \<mapsto> [])\<rparr>"
  have q1: "fs ?stz ?fp = Some []" by simp
  have q2: "\<forall>i\<in>set [0..<n]. \<exists>md. getChunkMetadata ?stz uid i = Some md \<and> path md \<noteq> ?fp
                              \<and> fs ?stz (path md) = Some (payload i)"
  proof
    fix i assume "i \<in> set [0..<n]"
    then have i: "i < n" by simp
    from inv have every: "\<forall>j\<in>{0..<n}. \<exists>md. getChunkMetadata st uid j = Some md
                     \<and> path md = localChunkPath cfg uid j
                     \<and> fs st (localChunkPath cfg uid j) = Some (payload j)"
      by (simp add: chunks_inv_def)
    have "i \<in> {0..<n}" using i by simp
    from bspec [OF every this] obtain md where md: "getChunkMetadata st uid i = Some md"
        "path md = localChunkPath cfg uid i" "fs st (localChunkPath cfg uid i) = Some (payload i)"
      by blast
    from apart i have ne: "localChunkPath cfg uid i \<noteq> ?fp" by simp
    show "\<exists>md. getChunkMetadata ?stz uid i = Some md \<and> path md \<noteq> ?fp \<and> fs ?stz (path md) = Some (payload i)"
      using md ne by (simp add: getChunkMetadata_def)
  qed
  have q3: "\<forall>i\<in>set [0..<n]. s3 ?stz (getChunkPath uid i) = None \<or> s3 ?stz (getChunkPath uid i) = Some (payload i)"
    using inv by (simp add: chunks_inv_def)
  have loop: "reassemble_loop cfg s3get uid ?fp [0..<n] ?stz
                = (None, ?stz\<lparr>fs := (fs ?stz)(?fp \<mapsto> concat (map payload [0..<n]))\<rparr>)"
    using reassemble_loop_reads [OF q1 q2 q3, of cfg s3get] by simp
  show ?thesis
    using len loop
    by (simp add: reassembleChunks_def Let_def localFinalPath_def [symmetric])
qed

section \<open>Idempotent chunk storage\<close>



section \<open>Round trip\<close>



section \<open>Chunk upload requests\<close>

lemma getUploadSession_frame:
  assumes "getUploadSession cfg st uid = (r, st1)"
  shows "db st1 = db st" "chunkIndexStore st1 = chunkIndexStore st" "fs st1 = fs st" "s3 st1 = s3 st"
  using assms by (auto simp add: getUploadSession_def split: option.splits)

lemma getUploadSession_absent:
  "redis_get (sessionCache st) (getUploadSessionKey uid) = None \<Longrightarrow> db st uid = None \<Longrightarrow>
   getUploadSession cfg st uid = (Inl NotFoundError, st)"
  by (simp add: getUploadSession_def)

lemma updateUploadStatus_frame:
  "chunkIndexStore (updateUploadStatus now st uid s fp) = chunkIndexStore st"
  "fs (updateUploadStatus now st uid s fp) = fs st"
  "s3 (updateUploadStatus now st uid s fp) = s3 st"
  by (simp_all add: updateUploadStatus_def)

lemma storeChunk_frame:
  "db (snd (storeChunk cfg now s3ok st uid idx data)) = db st"
  "sessionCache (snd (storeChunk cfg now s3ok st uid idx data)) = sessionCache st"
  by (simp_all add: storeChunk_def Let_def split: option.splits)

lemma getChunkMetadata_cong:
  "chunkIndexStore st' = chunkIndexStore st \<Longrightarrow> getChunkMetadata st' uid i = getChunkMetadata st uid i"
  by (simp add: getChunkMetadata_def)

lemma uploadChunk_accepts:
  assumes sess: "getUploadSession cfg st uid = (Inr session, st1)"
      and idx: "idx < totalChunks session"
  shows "uploadChunk cfg now s3ok st uid idx data =
           (Inr \<lparr>chunkIndex_r = idx,
                 status_r = (if getChunkMetadata st uid idx \<noteq> None
                             then ''already_uploaded'' else ''uploaded''),
                 uploaded_r = getChunkCount (snd (storeChunk cfg now s3ok st1 uid idx data)) uid,
                 total_r = totalChunks session\<rparr>,
            if status session = INIT
            then updateUploadStatus now (snd (storeChunk cfg now s3ok st1 uid idx data)) uid UPLOADING None
            else snd (storeChunk cfg now s3ok st1 uid idx data))"
proof -
  obtain r st2 where sc: "storeChunk cfg now s3ok st1 uid idx data = (r, st2)" by fastforce
  have m: "getChunkMetadata st1 uid idx = getChunkMetadata st uid idx"
    using getUploadSession_frame(2) [OF sess] by (rule getChunkMetadata_cong)
  have ae: "alreadyExists r = (getChunkMetadata st uid idx \<noteq> None)"
    using sc m by (cases "getChunkMetadata st uid idx")
      (auto simp add: storeChunk_def getChunkMetadata_def Let_def)
  have cnt: "getChunkCount (updateUploadStatus now st2 uid UPLOADING None) uid = getChunkCount st2 uid"
    by (simp add: getChunkCount_def getChunkIndices_def updateUploadStatus_frame)
  show ?thesis
    using sess idx sc ae cnt by (simp add: uploadChunk_def Let_def)
qed

lemma show_nat_digit: "n < 10 \<Longrightarrow> show_nat n = [digit_char n]"
  by (simp add: show_nat.simps [of n])

lemma getUploadSession_state_with:
  "getUploadSession cfg (state_with s) (uploadId s)
     = (Inr s, (state_with s)\<lparr>sessionCache :=
                  redis_setex [] (getUploadSessionKey (uploadId s)) (expiryHours cfg * 3600) s\<rparr>)"
  by (simp add: getUploadSession_def state_with_def redis_get_def)

lemma state_chunk0_stored_facts:
  "db state_chunk0_stored = [''upl_1'' \<mapsto> session0]"
  "sessionCache state_chunk0_stored = []"
  "getChunkMetadata state_chunk0_stored ''upl_1'' 0
     = Some \<lparr>uploadId_c = ''upl_1'', chunkIndex = 0, path = ''uploads/temp/upl_1/chunk_0'',
             size_c = 4, uploadedAt = 1\<rparr>"
  by (simp_all add: state_chunk0_stored_def storeChunk_def state_with_def redis_get_def Let_def
        getChunkMetadata_def redis_setex_def example_paths default_config_def show_nat_digit
        digit_char_def session0_def useS3_def)

lemma getUploadSession_chunk0:
  "getUploadSession default_config state_chunk0_stored ''upl_1''
     = (Inr session0, state_chunk0_stored\<lparr>sessionCache :=
          redis_setex [] (getUploadSessionKey ''upl_1'') (expiryHours default_config * 3600) session0\<rparr>)"
  by (simp add: getUploadSession_def state_chunk0_stored_facts redis_get_def)

text \<open>
  C5 (as stated, refuted). The claim says that a chunk for a session that is past its
  \<open>expires_at\<close> or in COMPLETED or FAILED is refused and not stored. For a COMPLETED session
  whose \<open>expires_at\<close> lies in the past the chunk request is answered \<open>uploaded\<close> and the payload
  is on disk.
\<close>

theorem C5_terminal_expired_session_accepts_chunk:
  "status (session0\<lparr>status := COMPLETED\<rparr>) = COMPLETED
   \<and> expiresAt (session0\<lparr>status := COMPLETED\<rparr>) < 90000000
   \<and> map_sum code status_r
        (fst (uploadChunk default_config 90000000 False
                (state_with (session0\<lparr>status := COMPLETED\<rparr>)) ''upl_1'' 0 ''HELL''))
       = Inr ''uploaded''
   \<and> fs (snd (uploadChunk default_config 90000000 False
                (state_with (session0\<lparr>status := COMPLETED\<rparr>)) ''upl_1'' 0 ''HELL''))
        ''uploads/temp/upl_1/chunk_0'' = Some ''HELL''"
proof -
  let ?s = "session0\<lparr>status := COMPLETED\<rparr>"
  have u: "uploadId ?s = ''upl_1''" and t: "totalChunks ?s = 3" and stt: "status ?s = COMPLETED"
    and e: "expiresAt ?s = 86400000"
    by (simp_all add: session0_def)
  have g: "getUploadSession default_config (state_with ?s) ''upl_1''
             = (Inr ?s, (state_with ?s)\<lparr>sessionCache :=
                  redis_setex [] (getUploadSessionKey ''upl_1'') (expiryHours default_config * 3600) ?s\<rparr>)"
    using getUploadSession_state_with [of default_config ?s] by (simp add: u)
  have i: "(0::nat) < totalChunks ?s" by (simp add: t)
  have none: "getChunkMetadata (state_with ?s) ''upl_1'' 0 = None"
    by (simp add: getChunkMetadata_def state_with_def redis_get_def)
  show ?thesis
    using uploadChunk_accepts [OF g i, of 90000000 False "''HELL''"] none
    by (simp add: stt e storeChunk_def getChunkMetadata_def state_with_def redis_get_def Let_def
          example_paths default_config_def show_nat_digit digit_char_def)
qed

text \<open>
  C5 (amended). A chunk request fails with NOT_FOUND (404), changing nothing, when the
  session is neither cached nor in the table. That is the only check on the session:
  neither \<open>expires_at\<close> nor the status is read, so for every session that exists, expired or
  not and in any status, a chunk whose index is below \<open>totalChunks\<close> is accepted and is in
  the index afterwards.
\<close>

theorem C5_upload_checks_existence_only:
  "(redis_get (sessionCache st) (getUploadSessionKey uid) = None \<and> db st uid = None
      \<longrightarrow> uploadChunk cfg now s3ok st uid idx data = (Inl NotFoundError, st))
   \<and> (\<forall>session st1.
         getUploadSession cfg st uid = (Inr session, st1) \<and> idx < totalChunks session
         \<longrightarrow> (\<exists>r st'. uploadChunk cfg now s3ok st uid idx data = (Inr r, st')
                      \<and> getChunkMetadata st' uid idx \<noteq> None))"
proof (intro conjI impI allI)
  assume "redis_get (sessionCache st) (getUploadSessionKey uid) = None \<and> db st uid = None"
  then show "uploadChunk cfg now s3ok st uid idx data = (Inl NotFoundError, st)"
    by (simp add: uploadChunk_def getUploadSession_absent)
next
  fix session st1
  assume a: "getUploadSession cfg st uid = (Inr session, st1) \<and> idx < totalChunks session"
  let ?st2 = "snd (storeChunk cfg now s3ok st1 uid idx data)"
  obtain r where sc: "storeChunk cfg now s3ok st1 uid idx data = (r, ?st2)" by (metis prod.collapse)
  from storeChunk_records [OF sc] have rec: "getChunkMetadata ?st2 uid idx \<noteq> None" by auto
  have rec': "getChunkMetadata (updateUploadStatus now ?st2 uid UPLOADING None) uid idx \<noteq> None"
    using rec by (simp add: getChunkMetadata_def updateUploadStatus_frame)
  from a uploadChunk_accepts [of cfg st uid session st1 idx now s3ok data] rec rec'
  show "\<exists>r st'. uploadChunk cfg now s3ok st uid idx data = (Inr r, st') \<and> getChunkMetadata st' uid idx \<noteq> None"
    by (cases "status session = INIT") auto
qed

theorem C5_upload_checks_existence_only_witness:
  "uploadChunk default_config 90000000 False (state_with session0) ''upl_x'' 0 ''HELL''
     = (Inl NotFoundError, state_with session0)
   \<and> getChunkMetadata
        (snd (uploadChunk default_config 90000000 False
                (state_with (session0\<lparr>status := FAILED\<rparr>)) ''upl_1'' 0 ''HELL''))
        ''upl_1'' 0 \<noteq> None"
proof -
  let ?s = "session0\<lparr>status := FAILED\<rparr>"
  have absent: "redis_get (sessionCache (state_with session0)) (getUploadSessionKey ''upl_x'') = None
                  \<and> db (state_with session0) ''upl_x'' = None"
    by (simp add: state_with_def redis_get_def session0_def)
  have u: "uploadId ?s = ''upl_1''" by (simp add: session0_def)
  have g: "getUploadSession default_config (state_with ?s) ''upl_1''
             = (Inr ?s, (state_with ?s)\<lparr>sessionCache :=
                  redis_setex [] (getUploadSessionKey ''upl_1'') (expiryHours default_config * 3600) ?s\<rparr>)
           \<and> (0::nat) < totalChunks ?s"
    using getUploadSession_state_with [of default_config ?s] by (simp add: u) (simp add: session0_def)
  from C5_upload_checks_existence_only
         [of "state_with session0" "''upl_x''" default_config 90000000 False 0 "''HELL''"] absent
  have a: "uploadChunk default_config 90000000 False (state_with session0) ''upl_x'' 0 ''HELL''
             = (Inl NotFoundError, state_with session0)"
    by blast
  from C5_upload_checks_existence_only
         [of "state_with ?s" "''upl_1''" default_config 90000000 False 0 "''HELL''"] g
  have b: "\<exists>r st'. uploadChunk default_config 90000000 False (state_with ?s) ''upl_1'' 0 ''HELL'' = (Inr r, st')
             \<and> getChunkMetadata st' ''upl_1'' 0 \<noteq> None"
    by blast
  from a b show ?thesis by auto
qed

text \<open>
  C6 (as stated, refuted). The claim says that a payload whose length differs from the
  chunk size is rejected with a size error and not stored. With a chunk size of four
  bytes, a one-byte payload for chunk 0 is answered \<open>uploaded\<close> and written to disk.
\<close>

theorem C6_wrong_length_payload_stored:
  "length ''H'' \<noteq> chunkSize config4
   \<and> map_sum code status_r
        (fst (uploadChunk config4 10 False (state_with session0) ''upl_1'' 0 ''H''))
       = Inr ''uploaded''
   \<and> fs (snd (uploadChunk config4 10 False (state_with session0) ''upl_1'' 0 ''H''))
        ''uploads/temp/upl_1/chunk_0'' = Some ''H''"
proof -
  have u: "uploadId session0 = ''upl_1''" and stt: "status session0 = INIT"
    by (simp_all add: session0_def)
  have g: "getUploadSession config4 (state_with session0) ''upl_1''
             = (Inr session0, (state_with session0)\<lparr>sessionCache :=
                  redis_setex [] (getUploadSessionKey ''upl_1'') (expiryHours config4 * 3600) session0\<rparr>)"
    using getUploadSession_state_with [of config4 session0] by (simp add: u)
  have i: "(0::nat) < totalChunks session0" by (simp add: session0_def)
  have none: "getChunkMetadata (state_with session0) ''upl_1'' 0 = None"
    by (simp add: getChunkMetadata_def state_with_def redis_get_def)
  show ?thesis
    using uploadChunk_accepts [OF g i, of 10 False "''H''"] none
    by (simp add: stt storeChunk_def getChunkMetadata_def state_with_def redis_get_def Let_def
          example_paths default_config_def config4_def show_nat_digit digit_char_def
          updateUploadStatus_def)
qed

text \<open>
  C6 (amended). A chunk request does not look at the length of the payload: for an
  existing session, an index below \<open>totalChunks\<close> and a chunk not yet in the index, a payload
  of any length is answered \<open>uploaded\<close>, written to the chunk's local file, and recorded with
  the length it has.
\<close>

theorem C6_any_payload_length_stored:
  assumes sess: "getUploadSession cfg st uid = (Inr session, st1)"
      and idx: "idx < totalChunks session"
      and new: "getChunkMetadata st uid idx = None"
  shows "\<exists>r st'. uploadChunk cfg now s3ok st uid idx data = (Inr r, st')
           \<and> status_r r = ''uploaded''
           \<and> map_option size_c (getChunkMetadata st' uid idx) = Some (length data)
           \<and> fs st' (localChunkPath cfg uid idx) = Some data"
proof -
  let ?st2 = "snd (storeChunk cfg now s3ok st1 uid idx data)"
  have m: "getChunkMetadata st1 uid idx = None"
    using getUploadSession_frame(2) [OF sess] new by (simp add: getChunkMetadata_def)
  have md: "map_option size_c (getChunkMetadata ?st2 uid idx) = Some (length data)"
    using m by (simp add: storeChunk_def getChunkMetadata_def Let_def redis_get_setex_same)
  have f: "fs ?st2 (localChunkPath cfg uid idx) = Some data"
    using m by (simp add: storeChunk_def getChunkMetadata_def Let_def localChunkPath_def)
  have md': "map_option size_c (getChunkMetadata (updateUploadStatus now ?st2 uid UPLOADING None) uid idx)
               = Some (length data)"
    using md by (simp add: getChunkMetadata_def updateUploadStatus_frame)
  have f': "fs (updateUploadStatus now ?st2 uid UPLOADING None) (localChunkPath cfg uid idx) = Some data"
    using f by (simp add: updateUploadStatus_frame)
  from uploadChunk_accepts [OF sess idx, of now s3ok data] new md f md' f'
  show ?thesis by (cases "status session = INIT") auto
qed

theorem C6_any_payload_length_stored_witness:
  "map_option size_c
     (getChunkMetadata
        (snd (uploadChunk config4 10 False (state_with session0) ''upl_1'' 1 ''HELLOWORLD!!''))
        ''upl_1'' 1) = Some 12
   \<and> fs (snd (uploadChunk config4 10 False (state_with session0) ''upl_1'' 1 ''HELLOWORLD!!''))
        (localChunkPath config4 ''upl_1'' 1) = Some ''HELLOWORLD!!''"
proof -
  have u: "uploadId session0 = ''upl_1''" by (simp add: session0_def)
  have g: "getUploadSession config4 (state_with session0) ''upl_1''
             = (Inr session0, (state_with session0)\<lparr>sessionCache :=
                  redis_setex [] (getUploadSessionKey ''upl_1'') (expiryHours config4 * 3600) session0\<rparr>)"
    using getUploadSession_state_with [of config4 session0] by (simp add: u)
  have i: "(1::nat) < totalChunks session0" by (simp add: session0_def)
  have none: "getChunkMetadata (state_with session0) ''upl_1'' 1 = None"
    by (simp add: getChunkMetadata_def state_with_def redis_get_def)
  from C6_any_payload_length_stored [OF g i none, of 10 False "''HELLOWORLD!!''"]
  show ?thesis by auto
qed

text \<open>
  C8 (as stated, refuted). The claim says that an already present chunk causes no session
  transition, so that a session in INIT stays in INIT. With chunk 0 in the index and the
  session row in INIT, the request is answered \<open>already_uploaded\<close> and the row is in
  UPLOADING afterwards.
\<close>

theorem C8_already_present_moves_init_to_uploading:
  "map_option status (db state_chunk0_stored ''upl_1'') = Some INIT
   \<and> map_sum code status_r
        (fst (uploadChunk default_config 2 False state_chunk0_stored ''upl_1'' 0 ''HELL''))
       = Inr ''already_uploaded''
   \<and> map_option status
        (db (snd (uploadChunk default_config 2 False state_chunk0_stored ''upl_1'' 0 ''HELL''))
           ''upl_1'') = Some UPLOADING"
proof -
  have i: "(0::nat) < totalChunks session0" and stt: "status session0 = INIT"
    by (simp_all add: session0_def)
  show ?thesis
    using uploadChunk_accepts [OF getUploadSession_chunk0 i, of 2 False "''HELL''"]
    by (simp add: stt state_chunk0_stored_facts storeChunk_def Let_def getChunkMetadata_def [symmetric]
          updateUploadStatus_def session0_def)
qed

text \<open>
  C8 (amended). When the chunk is already in the index, \<open>storeChunk\<close> returns
  \<open>alreadyExists\<close> with the recorded size and changes nothing, the request is answered
  \<open>already_uploaded\<close>, and the chunk index, the local files and S3 are as before. The move
  to UPLOADING does not depend on that outcome: it is made whenever the loaded session is in
  INIT, and then the stored row gets status UPLOADING and a new \<open>updated_at\<close>; a session
  loaded in any other status is left as it is.
\<close>

theorem C8_already_present_still_transitions:
  assumes sess: "getUploadSession cfg st uid = (Inr session, st1)"
      and idx: "idx < totalChunks session"
      and present: "getChunkMetadata st uid idx = Some md"
  shows "storeChunk cfg now s3ok st1 uid idx data = (\<lparr>alreadyExists = True, size_r = size_c md\<rparr>, st1)
         \<and> (\<exists>r st'. uploadChunk cfg now s3ok st uid idx data = (Inr r, st')
               \<and> status_r r = ''already_uploaded''
               \<and> chunkIndexStore st' = chunkIndexStore st \<and> fs st' = fs st \<and> s3 st' = s3 st
               \<and> (status session \<noteq> INIT \<longrightarrow> st' = st1)
               \<and> (status session = INIT \<longrightarrow>
                    st' = updateUploadStatus now st1 uid UPLOADING None
                    \<and> (\<forall>row. db st uid = Some row \<longrightarrow>
                          db st' uid = Some (row\<lparr>status := UPLOADING, updatedAt := now\<rparr>))))"
proof -
  have m: "getChunkMetadata st1 uid idx = Some md"
    using getUploadSession_frame(2) [OF sess] present by (simp add: getChunkMetadata_def)
  have sc: "storeChunk cfg now s3ok st1 uid idx data = (\<lparr>alreadyExists = True, size_r = size_c md\<rparr>, st1)"
    using m by (rule storeChunk_present)
  note fr = getUploadSession_frame [OF sess]
  have dbu: "\<forall>row. db st uid = Some row \<longrightarrow>
               db (updateUploadStatus now st1 uid UPLOADING None) uid
                 = Some (row\<lparr>status := UPLOADING, updatedAt := now\<rparr>)"
    using fr(1) by (simp add: updateUploadStatus_def)
  from uploadChunk_accepts [OF sess idx, of now s3ok data] present sc fr dbu
  show ?thesis by (cases "status session = INIT") (auto simp add: updateUploadStatus_frame)
qed

theorem C8_already_present_still_transitions_witness:
  "db (snd (uploadChunk default_config 2 False state_chunk0_stored ''upl_1'' 0 ''HELL'')) ''upl_1''
     = Some (session0\<lparr>status := UPLOADING, updatedAt := 2\<rparr>)
   \<and> chunkIndexStore (snd (uploadChunk default_config 2 False state_chunk0_stored ''upl_1'' 0 ''HELL''))
     = chunkIndexStore state_chunk0_stored"
proof -
  have i: "(0::nat) < totalChunks session0" and stt: "status session0 = INIT"
    by (simp_all add: session0_def)
  from C8_already_present_still_transitions
         [OF getUploadSession_chunk0 i state_chunk0_stored_facts(3), of 2 False "''HELL''"]
  show ?thesis by (auto simp add: stt state_chunk0_stored_facts)
qed

section \<open>Completion requests\<close>

lemma getChunkIndices_cong:
  "chunkIndexStore st' = chunkIndexStore st \<Longrightarrow> getChunkIndices st' uid = getChunkIndices st uid"
  by (simp add: getChunkIndices_def)

lemma getMissingChunks_cong:
  "chunkIndexStore st' = chunkIndexStore st \<Longrightarrow> getMissingChunks st' uid n = getMissingChunks st uid n"
  by (simp add: getMissingChunks_def getChunkIndices_def)

lemma reassemble_loop_frame:
  "reassemble_loop cfg s3get uid fp todo st = (r, st') \<Longrightarrow>
   db st' = db st \<and> sessionCache st' = sessionCache st \<and> chunkIndexStore st' = chunkIndexStore st
   \<and> s3 st' = s3 st \<and> (fs st fp \<noteq> None \<longrightarrow> fs st' fp \<noteq> None)"
proof (induction todo arbitrary: st)
  case Nil
  then show ?case by auto
next
  case (Cons i todo)
  show ?case
  proof (cases "getChunkMetadata st uid i")
    case None
    with Cons.prems show ?thesis by auto
  next
    case (Some md)
    show ?thesis
    proof (cases "readChunk cfg s3get st uid i md")
      case None
      with Some Cons.prems show ?thesis by auto
    next
      case (Some chunkData)
      let ?sta = "st\<lparr>fs := (fs st)(fp \<mapsto>
                     (case fs st fp of None \<Rightarrow> [] | Some written \<Rightarrow> written) @ chunkData)\<rparr>"
      from Cons.prems \<open>getChunkMetadata st uid i = Some md\<close> Some
      have "reassemble_loop cfg s3get uid fp todo ?sta = (r, st')" by simp
      from Cons.IH [OF this] show ?thesis by simp
    qed
  qed
qed

lemma reassembleChunks_frame:
  assumes "reassembleChunks cfg s3get s3put st uid fname n = (r, st')"
  shows "db st' = db st" "sessionCache st' = sessionCache st" "chunkIndexStore st' = chunkIndexStore st"
proof -
  let ?fp = "path_join (path_join (finalDir cfg) uid) fname"
  let ?stz = "st\<lparr>fs := (fs st)(?fp \<mapsto> [])\<rparr>"
  obtain e st1 where l: "reassemble_loop cfg s3get uid ?fp [0..<n] ?stz = (e, st1)" by fastforce
  from reassemble_loop_frame [OF l]
  have f: "db st1 = db st" "sessionCache st1 = sessionCache st" "chunkIndexStore st1 = chunkIndexStore st"
    by simp_all
  from assms l f show "db st' = db st" "sessionCache st' = sessionCache st"
      "chunkIndexStore st' = chunkIndexStore st"
    by (auto simp add: reassembleChunks_def Let_def split: if_splits option.splits)
qed

lemma reassembleChunks_success:
  assumes "reassembleChunks cfg s3get s3put st uid fname n = (Inr fp, st')"
  shows "fp = localFinalPath cfg uid fname
         \<and> (\<exists>bytes. fs st' fp = Some bytes
               \<and> (useS3 cfg \<and> s3put \<longrightarrow> s3 st' (getFinalFilePath uid fname) = Some bytes)
               \<and> (\<not> (useS3 cfg \<and> s3put) \<longrightarrow> s3 st' = s3 st))"
proof -
  let ?fp = "path_join (path_join (finalDir cfg) uid) fname"
  let ?stz = "st\<lparr>fs := (fs st)(?fp \<mapsto> [])\<rparr>"
  obtain e st1 where l: "reassemble_loop cfg s3get uid ?fp [0..<n] ?stz = (e, st1)" by fastforce
  from reassemble_loop_frame [OF l] obtain bytes where
    b: "fs st1 ?fp = Some bytes" and s: "s3 st1 = s3 st" by auto
  from assms l b s show ?thesis
    by (auto simp add: reassembleChunks_def Let_def localFinalPath_def split: if_splits option.splits)
qed



lemma failUpload_status:
  "db st uid = Some row \<Longrightarrow> map_option status (db (failUpload now st uid) uid) = Some FAILED"
  by (simp add: failUpload_def updateUploadStatus_def)

lemma updateUploadStatus_db_dom:
  "db st uid = Some row \<Longrightarrow> \<exists>row'. db (updateUploadStatus now st uid s fp) uid = Some row'"
  by (simp add: updateUploadStatus_def)

lemma complete_missing:
  assumes sess: "getUploadSession cfg st uid = (Inr session, st1)"
      and len: "length (getChunkIndices st uid) \<noteq> totalChunks session"
  shows "completeUpload cfg ext now s3get s3put st uid
           = (Inl (MissingChunksError (getMissingChunks st uid (totalChunks session))),
              failUpload now (updateUploadStatus now st1 uid ASSEMBLING None) uid)"
proof -
  let ?st2 = "updateUploadStatus now st1 uid ASSEMBLING None"
  have c: "chunkIndexStore ?st2 = chunkIndexStore st"
    using getUploadSession_frame(2) [OF sess] by (simp add: updateUploadStatus_frame)
  have "reassembleChunks cfg s3get s3put ?st2 uid (fileName session) (totalChunks session)
          = (Inl (MissingChunksError (getMissingChunks st uid (totalChunks session))), ?st2)"
    using len by (simp add: reassembleChunks_def getChunkIndices_cong [OF c] getMissingChunks_cong [OF c])
  then show ?thesis using sess by (simp add: completeUpload_def Let_def)
qed

lemma complete_assembled:
  assumes sess: "getUploadSession cfg st uid = (Inr session, st1)"
      and asm: "reassembleChunks cfg s3get s3put (updateUploadStatus now st1 uid ASSEMBLING None) uid
                  (fileName session) (totalChunks session) = (Inr fp, st3)"
  shows "completeUpload cfg ext now s3get s3put st uid
           = (if isValid (validateFile ext st3 fp (fileType session) (fileName session)
                            (fileSize session) (maxFileSize cfg) (checksum session))
              then (Inr \<lparr>uploadId_cr = uid, status_cr = ''completed'', filePath_cr = fp\<rparr>,
                    completeUpload_service now st3 uid fp)
              else (Inl ValidationFailed, failUpload now st3 uid))"
  using sess asm by (simp add: completeUpload_def Let_def)

lemma missing_length:
  assumes "distinct xs" and "set xs \<subseteq> {0..<n}" and "filter (\<lambda>i. i \<notin> set xs) [0..<n] \<noteq> []"
  shows "length xs \<noteq> n"
proof -
  from assms(3) obtain i where "i < n" "i \<notin> set xs"
    by (auto simp add: filter_empty_conv)
  with assms(2) have "set xs \<subset> {0..<n}" by auto
  then have "card (set xs) < card {0..<n}" by (intro psubset_card_mono) auto
  with assms(1) show ?thesis by (simp add: distinct_card)
qed

lemma getMissingChunks_props:
  "sorted (getMissingChunks st uid n) \<and> distinct (getMissingChunks st uid n)
   \<and> set (getMissingChunks st uid n) = {i. i < n \<and> i \<notin> set (getChunkIndices st uid)}"
  by (auto simp add: getMissingChunks_def sorted_wrt_filter)

lemma checksum_mismatch_invalid:
  assumes "ck = Some c" "c \<noteq> []" "fs st fp = Some bytes" "calculateChecksum ext bytes \<noteq> c"
  shows "\<not> isValid (validateFile ext st fp ftype fname fsize maxSize ck)"
  using assms by (simp add: validateFile_def validateChecksum_def Let_def)

lemma upload_all_frame:
  "db (upload_all cfg uid payload calls st) = db st
   \<and> sessionCache (upload_all cfg uid payload calls st) = sessionCache st"
  by (induction calls arbitrary: st) (auto simp add: storeChunk_frame)

lemma storeChunk_s3_other:
  "k \<noteq> getChunkPath uid idx \<Longrightarrow> s3 (snd (storeChunk cfg now s3ok st uid idx data)) k = s3 st k"
  by (simp add: storeChunk_def Let_def split: option.splits)

lemma upload_all_s3_other:
  "\<forall>i. k \<noteq> getChunkPath uid i \<Longrightarrow> s3 (upload_all cfg uid payload calls st) k = s3 st k"
  by (induction calls arbitrary: st) (auto simp add: storeChunk_s3_other)

lemma getUploadSession_uncached:
  "sessionCache st = [] \<Longrightarrow> db st uid = Some s \<Longrightarrow>
   getUploadSession cfg st uid
     = (Inr s, st\<lparr>sessionCache := redis_setex [] (getUploadSessionKey uid) (expiryHours cfg * 3600) s\<rparr>)"
  by (simp add: getUploadSession_def redis_get_def)

lemma example_db:
  "uploadId s = ''upl_1'' \<Longrightarrow> db (example_uploaded cfg s calls) ''upl_1'' = Some s"
  by (simp add: example_uploaded_def upload_all_frame state_with_def)

lemma example_cache: "sessionCache (example_uploaded cfg s calls) = []"
  by (simp add: example_uploaded_def upload_all_frame state_with_def)

lemma example_session:
  assumes "uploadId s = ''upl_1''"
  shows "getUploadSession cfg (example_uploaded cfg s calls) ''upl_1''
           = (Inr s, (example_uploaded cfg s calls)\<lparr>sessionCache :=
                 redis_setex [] (getUploadSessionKey ''upl_1'') (expiryHours cfg * 3600) s\<rparr>)"
  using example_db [OF assms] example_cache by (intro getUploadSession_uncached)

lemma example_inv:
  "chunks_inv cfg ''upl_1'' (split_chunk 4 ''HELLOWORLD!'') (set (map (\<lambda>c. snd (snd c)) calls))
     (example_uploaded cfg s calls)"
proof -
  have "chunks_inv cfg ''upl_1'' (split_chunk 4 ''HELLOWORLD!'') {} (state_with s)"
    by (rule fresh_inv) (simp_all add: state_with_def redis_keys_def)
  from upload_all_inv [OF this, of calls] show ?thesis by (simp add: example_uploaded_def)
qed

lemma example_dirs:
  assumes "tempDir cfg = ''./uploads/temp''" "finalDir cfg = ''./uploads/final''"
  shows "localChunkPath cfg ''upl_1'' i = ''uploads/temp/upl_1/chunk_'' @ show_nat i"
    and "localFinalPath cfg ''upl_1'' ''hello.txt'' = ''uploads/final/upl_1/hello.txt''"
  using assms
  by (simp_all add: localChunkPath_front localFinalPath_def example_paths join_front_def
        normalize_step_def Let_def)

lemma example_blob: "concat (map (split_chunk 4 ''HELLOWORLD!'') [0..<3]) = ''HELLOWORLD!''"
  using split_roundtrip [of 4 "''HELLOWORLD!''"] by (simp add: ceil_div_def)

lemma single_line_example: "single_line ''upl_1''"
  by (simp add: single_line_def)

lemma example_reassemble:
  assumes dirs: "tempDir cfg = ''./uploads/temp''" "finalDir cfg = ''./uploads/final''"
      and cover: "set (map (\<lambda>c. snd (snd c)) calls) = {0..<3}"
      and same: "chunkIndexStore st = chunkIndexStore (example_uploaded cfg s calls)"
                "fs st = fs (example_uploaded cfg s calls)"
                "s3 st = s3 (example_uploaded cfg s calls)"
  shows "reassembleChunks cfg s3get s3put st ''upl_1'' ''hello.txt'' 3
           = (Inr ''uploads/final/upl_1/hello.txt'',
              if useS3 cfg \<and> s3put
              then st\<lparr>fs := (fs st)(''uploads/final/upl_1/hello.txt'' \<mapsto> ''HELLOWORLD!''),
                      s3 := (s3 st)(''datasets/upl_1/upl_1_hello.txt'' \<mapsto> ''HELLOWORLD!'')\<rparr>
              else st\<lparr>fs := (fs st)(''uploads/final/upl_1/hello.txt'' \<mapsto> ''HELLOWORLD!'')\<rparr>)"
proof -
  have inv: "chunks_inv cfg ''upl_1'' (split_chunk 4 ''HELLOWORLD!'') {0..<3} st"
    using example_inv [of cfg calls s] cover chunks_inv_cong [OF same] by simp
  have apart: "\<forall>i<3. localChunkPath cfg ''upl_1'' i \<noteq> localFinalPath cfg ''upl_1'' ''hello.txt''"
    by (simp add: example_dirs [OF dirs])
  have key: "getFinalFilePath ''upl_1'' ''hello.txt'' = ''datasets/upl_1/upl_1_hello.txt''"
    by (simp add: getFinalFilePath_def)
  from reassemble_from_inv [OF single_line_example inv apart, of s3get s3put]
  show ?thesis by (simp add: example_dirs [OF dirs] example_blob key)
qed


lemma example_validation:
  "isValid (validateFile ext st fp ''text/plain'' ''hello.txt'' 11 10737418240 None)"
  by (simp add: validateFile_def validateFileType_def validateFileSize_def Let_def
        allowedMimeTypes_def allowedExtensions_def toLowerCase_def extname_def endsWith_def)

lemma calls_cover:
  "set (map (\<lambda>c. snd (snd c)) calls_gap) = {0, 2}"
  "set (map (\<lambda>c. snd (snd c)) calls_full) = {0..<3}"
  by (auto simp add: calls_gap_def calls_full_def)

lemma session_uploading_fields:
  "uploadId session_uploading = ''upl_1''" "fileName session_uploading = ''hello.txt''"
  "totalChunks session_uploading = 3" "status session_uploading = UPLOADING"
  "fileType session_uploading = ''text/plain''" "fileSize session_uploading = 11"
  "checksum session_uploading = None" "expiresAt session_uploading = 86400000"
  by (simp_all add: session_uploading_def session0_def)

lemma default_dirs:
  "tempDir default_config = ''./uploads/temp''" "finalDir default_config = ''./uploads/final''"
  "maxFileSize default_config = 10737418240" "useS3 default_config = False"
  "tempDir prod_config = ''./uploads/temp''" "finalDir prod_config = ''./uploads/final''"
  "maxFileSize prod_config = 10737418240" "useS3 prod_config = True"
  by (simp_all add: default_config_def prod_config_def useS3_def)

lemma gap_indices:
  "set (getChunkIndices (example_uploaded cfg s calls_gap) ''upl_1'') = {0, 2}"
  "length (getChunkIndices (example_uploaded cfg s calls_gap) ''upl_1'') = 2"
  "distinct (getChunkIndices (example_uploaded cfg s calls_gap) ''upl_1'')"
  "getMissingChunks (example_uploaded cfg s calls_gap) ''upl_1'' 3 = [1]"
proof -
  let ?st = "example_uploaded cfg s calls_gap"
  have inv: "chunks_inv cfg ''upl_1'' (split_chunk 4 ''HELLOWORLD!'') {0, 2} ?st"
    using example_inv [of cfg calls_gap s] unfolding calls_cover(1) .
  show set: "set (getChunkIndices ?st ''upl_1'') = {0, 2}"
    using getChunkIndices_set [OF single_line_example inv] .
  show len: "length (getChunkIndices ?st ''upl_1'') = 2"
    using getChunkIndices_length [OF single_line_example inv] by simp
  show "distinct (getChunkIndices ?st ''upl_1'')"
    using set len by (intro card_distinct) simp
  have "[0..<3] = [0, 1, 2::nat]" by (simp add: upt_rec)
  then show "getMissingChunks ?st ''upl_1'' 3 = [1]"
    by (simp add: getMissingChunks_def set)
qed

lemma session_sha_fields:
  "uploadId session_sha = ''upl_1''" "fileName session_sha = ''hello.txt''"
  "totalChunks session_sha = 3" "status session_sha = UPLOADING"
  "checksum session_sha = Some ''sha256:deadbeef''"
  by (simp_all add: session_sha_def session0_def)


lemma example_complete:
  assumes dirs: "tempDir cfg = ''./uploads/temp''" "finalDir cfg = ''./uploads/final''"
      and s: "uploadId s = ''upl_1''" "fileName s = ''hello.txt''" "totalChunks s = 3"
  obtains st1 st3 where
    "getUploadSession cfg (example_uploaded cfg s calls_full) ''upl_1'' = (Inr s, st1)"
    "reassembleChunks cfg s3get s3put (updateUploadStatus now st1 ''upl_1'' ASSEMBLING None)
       ''upl_1'' (fileName s) (totalChunks s) = (Inr ''uploads/final/upl_1/hello.txt'', st3)"
    "fs st3 ''uploads/final/upl_1/hello.txt'' = Some ''HELLOWORLD!''"
    "s3 st3 = (if useS3 cfg \<and> s3put
               then (s3 (example_uploaded cfg s calls_full))
                      (''datasets/upl_1/upl_1_hello.txt'' \<mapsto> ''HELLOWORLD!'')
               else s3 (example_uploaded cfg s calls_full))"
    "completeUpload cfg ext now s3get s3put (example_uploaded cfg s calls_full) ''upl_1''
       = (if isValid (validateFile ext st3 ''uploads/final/upl_1/hello.txt'' (fileType s)
                        (fileName s) (fileSize s) (maxFileSize cfg) (checksum s))
          then (Inr \<lparr>uploadId_cr = ''upl_1'', status_cr = ''completed'',
                     filePath_cr = ''uploads/final/upl_1/hello.txt''\<rparr>,
                completeUpload_service now st3 ''upl_1'' ''uploads/final/upl_1/hello.txt'')
          else (Inl ValidationFailed, failUpload now st3 ''upl_1''))"
proof -
  let ?st = "example_uploaded cfg s calls_full"
  let ?sta = "?st\<lparr>sessionCache := redis_setex [] (getUploadSessionKey ''upl_1'')
                       (expiryHours cfg * 3600) s\<rparr>"
  let ?stb = "updateUploadStatus now ?sta ''upl_1'' ASSEMBLING None"
  let ?fp = "''uploads/final/upl_1/hello.txt''"
  let ?stc = "if useS3 cfg \<and> s3put
              then ?stb\<lparr>fs := (fs ?stb)(?fp \<mapsto> ''HELLOWORLD!''),
                        s3 := (s3 ?stb)(''datasets/upl_1/upl_1_hello.txt'' \<mapsto> ''HELLOWORLD!'')\<rparr>
              else ?stb\<lparr>fs := (fs ?stb)(?fp \<mapsto> ''HELLOWORLD!'')\<rparr>"
  note sess = example_session [OF s(1), of cfg calls_full]
  have same: "chunkIndexStore ?stb = chunkIndexStore ?st" "fs ?stb = fs ?st" "s3 ?stb = s3 ?st"
    by (simp_all add: updateUploadStatus_frame)
  have asm: "reassembleChunks cfg s3get s3put ?stb ''upl_1'' (fileName s) (totalChunks s) = (Inr ?fp, ?stc)"
    unfolding s(2,3) by (rule example_reassemble [OF dirs calls_cover(2) same])
  have f: "fs ?stc ?fp = Some ''HELLOWORLD!''" by simp
  have t: "s3 ?stc = (if useS3 cfg \<and> s3put
               then (s3 ?st)(''datasets/upl_1/upl_1_hello.txt'' \<mapsto> ''HELLOWORLD!'') else s3 ?st)"
    by (simp add: same(3))
  note c = complete_assembled [OF sess asm, of ext]
  show ?thesis by (rule that [OF sess asm f t c])
qed

lemma example_s3_final_namespace:
  "s3 (example_uploaded cfg s calls) ''final/upl_1/upl_1_hello.txt'' = None"
proof -
  have "\<forall>i. ''final/upl_1/upl_1_hello.txt'' \<noteq> getChunkPath ''upl_1'' i"
    by (simp add: getChunkPath_def)
  from upload_all_s3_other [OF this] show ?thesis
    by (simp add: example_uploaded_def state_with_def)
qed






text \<open>
  C4 (as stated, refuted). The claim says that after a completion attempt with a gap the
  session is still in UPLOADING. With chunks 0 and 2 of three uploaded, the attempt fails
  with MISSING_CHUNKS and details \<open>[1]\<close>, and the session, in UPLOADING before, is in FAILED.
\<close>

theorem C4_gap_marks_session_failed:
  "map_option status (db (example_uploaded default_config session_uploading calls_gap) ''upl_1'')
     = Some UPLOADING
   \<and> map_sum (\<lambda>e. (code e, details e)) (\<lambda>r. ())
        (fst (completeUpload default_config stub_externals 50 (\<lambda>i. False) False
                (example_uploaded default_config session_uploading calls_gap) ''upl_1''))
       = Inl (''MISSING_CHUNKS'', MissingChunksDetails [1])
   \<and> map_option status
        (db (snd (completeUpload default_config stub_externals 50 (\<lambda>i. False) False
                    (example_uploaded default_config session_uploading calls_gap) ''upl_1''))
           ''upl_1'') = Some FAILED"
proof -
  let ?st = "example_uploaded default_config session_uploading calls_gap"
  let ?sta = "?st\<lparr>sessionCache := redis_setex [] (getUploadSessionKey ''upl_1'')
                       (expiryHours default_config * 3600) session_uploading\<rparr>"
  note sess = example_session [OF session_uploading_fields(1), of default_config calls_gap]
  have len: "length (getChunkIndices ?st ''upl_1'') \<noteq> totalChunks session_uploading"
    by (simp add: gap_indices(2) session_uploading_fields(3))
  have row: "db ?st ''upl_1'' = Some session_uploading"
    by (rule example_db [OF session_uploading_fields(1)])
  have res: "completeUpload default_config stub_externals 50 (\<lambda>i. False) False ?st ''upl_1''
               = (Inl (MissingChunksError [1]),
                  failUpload 50 (updateUploadStatus 50 ?sta ''upl_1'' ASSEMBLING None) ''upl_1'')"
    using complete_missing [OF sess len, of stub_externals 50 "\<lambda>i. False" False]
    by (simp only: session_uploading_fields(3) gap_indices(4))
  have "db ?sta ''upl_1'' = Some session_uploading" using row by simp
  then obtain row' where "db (updateUploadStatus 50 ?sta ''upl_1'' ASSEMBLING None) ''upl_1'' = Some row'"
    using updateUploadStatus_db_dom by blast
  then have failed: "map_option status
      (db (failUpload 50 (updateUploadStatus 50 ?sta ''upl_1'' ASSEMBLING None) ''upl_1'') ''upl_1'')
      = Some FAILED"
    by (rule failUpload_status)
  have before: "map_option status (db ?st ''upl_1'') = Some UPLOADING"
    by (simp add: row session_uploading_fields(4))
  have err: "map_sum (\<lambda>e. (code e, details e)) (\<lambda>r. ()) (Inl (MissingChunksError [1]))
               = Inl (''MISSING_CHUNKS'', MissingChunksDetails [1])"
    by (simp add: MissingChunksError_def)
  show ?thesis
    unfolding res fst_conv snd_conv using before err failed by blast
qed

text \<open>
  C4 (amended). For a stored session whose indexed chunks are distinct indices below
  \<open>totalChunks\<close> (as chunk requests leave them) and whose list of missing chunks is not
  empty, a completion attempt fails with MISSING_CHUNKS (400); the details carry the
  missing indices in ascending order, exactly those below \<open>totalChunks\<close> that are not in the
  index; and the session is marked FAILED. This holds in any status of the session.
\<close>

theorem C4_missing_chunks_fail_session:
  assumes sess: "getUploadSession cfg st uid = (Inr session, st1)"
      and row: "db st uid = Some row"
      and wf: "distinct (getChunkIndices st uid)"
              "set (getChunkIndices st uid) \<subseteq> {0..<totalChunks session}"
      and gap: "getMissingChunks st uid (totalChunks session) \<noteq> []"
  shows "\<exists>e st'. completeUpload cfg ext now s3get s3put st uid = (Inl e, st')
           \<and> code e = ''MISSING_CHUNKS'' \<and> statusCode e = 400
           \<and> details e = MissingChunksDetails (getMissingChunks st uid (totalChunks session))
           \<and> sorted (getMissingChunks st uid (totalChunks session))
           \<and> set (getMissingChunks st uid (totalChunks session))
               = {i. i < totalChunks session \<and> i \<notin> set (getChunkIndices st uid)}
           \<and> map_option status (db st' uid) = Some FAILED"
proof -
  have len: "length (getChunkIndices st uid) \<noteq> totalChunks session"
    using wf gap unfolding getMissingChunks_def by (rule missing_length)
  let ?st2 = "updateUploadStatus now st1 uid ASSEMBLING None"
  have "db st1 uid = Some row" using getUploadSession_frame(1) [OF sess] row by simp
  then obtain row' where "db ?st2 uid = Some row'"
    using updateUploadStatus_db_dom by blast
  then have failed: "map_option status (db (failUpload now ?st2 uid) uid) = Some FAILED"
    by (rule failUpload_status)
  show ?thesis
    using complete_missing [OF sess len, of ext now s3get s3put] failed getMissingChunks_props [of st uid "totalChunks session"]
    by (simp add: MissingChunksError_def)
qed

theorem C4_missing_chunks_fail_session_witness:
  "map_sum details (\<lambda>r. ())
     (fst (completeUpload default_config stub_externals 50 (\<lambda>i. False) False
             (example_uploaded default_config session_uploading calls_gap) ''upl_1''))
     = Inl (MissingChunksDetails [1])
   \<and> map_option status
        (db (snd (completeUpload default_config stub_externals 50 (\<lambda>i. False) False
                    (example_uploaded default_config session_uploading calls_gap) ''upl_1''))
           ''upl_1'') = Some FAILED"
proof -
  let ?st = "example_uploaded default_config session_uploading calls_gap"
  note sess = example_session [OF session_uploading_fields(1), of default_config calls_gap]
  have row: "db ?st ''upl_1'' = Some session_uploading"
    by (rule example_db [OF session_uploading_fields(1)])
  have d: "distinct (getChunkIndices ?st ''upl_1'')" by (rule gap_indices)
  have sub: "set (getChunkIndices ?st ''upl_1'') \<subseteq> {0..<totalChunks session_uploading}"
    by (simp add: gap_indices session_uploading_fields)
  have gap: "getMissingChunks ?st ''upl_1'' (totalChunks session_uploading) \<noteq> []"
    by (simp add: gap_indices session_uploading_fields)
  from C4_missing_chunks_fail_session [OF sess row d sub gap, of stub_externals 50 "\<lambda>i. False" False]
  obtain e st' where r: "completeUpload default_config stub_externals 50 (\<lambda>i. False) False ?st ''upl_1''
                           = (Inl e, st')"
      "details e = MissingChunksDetails (getMissingChunks ?st ''upl_1'' (totalChunks session_uploading))"
      "map_option status (db st' ''upl_1'') = Some FAILED"
    by blast
  have "details e = MissingChunksDetails [1]"
    using r(2) by (simp only: session_uploading_fields(3) gap_indices(4))
  then show ?thesis using r(1,3) by simp
qed

text \<open>
  C7 (as stated, refuted). The claim says that a digest mismatch fails with the error code
  DIGEST_MISMATCH. With all chunks uploaded and an expected checksum that the assembled
  file does not have, the completion fails with the code VALIDATION_ERROR.
\<close>

theorem C7_mismatch_reports_validation_error:
  "map_sum code (\<lambda>r. ())
     (fst (completeUpload default_config stub_externals 50 (\<lambda>i. False) False
             (example_uploaded default_config session_sha calls_full) ''upl_1''))
     = Inl ''VALIDATION_ERROR''"
proof -
  obtain st1 st3 where
    f: "fs st3 ''uploads/final/upl_1/hello.txt'' = Some ''HELLOWORLD!''"
    and c: "completeUpload default_config stub_externals 50 (\<lambda>i. False) False
              (example_uploaded default_config session_sha calls_full) ''upl_1''
       = (if isValid (validateFile stub_externals st3 ''uploads/final/upl_1/hello.txt''
                        (fileType session_sha) (fileName session_sha) (fileSize session_sha)
                        (maxFileSize default_config) (checksum session_sha))
          then (Inr \<lparr>uploadId_cr = ''upl_1'', status_cr = ''completed'',
                     filePath_cr = ''uploads/final/upl_1/hello.txt''\<rparr>,
                completeUpload_service 50 st3 ''upl_1'' ''uploads/final/upl_1/hello.txt'')
          else (Inl ValidationFailed, failUpload 50 st3 ''upl_1''))"
    by (rule example_complete [OF default_dirs(1,2) session_sha_fields(1,2,3)])
  have mm: "calculateChecksum stub_externals ''HELLOWORLD!'' \<noteq> ''sha256:deadbeef''"
    by (simp add: calculateChecksum_def stub_externals_def)
  have "\<not> isValid (validateFile stub_externals st3 ''uploads/final/upl_1/hello.txt''
                        (fileType session_sha) (fileName session_sha) (fileSize session_sha)
                        (maxFileSize default_config) (checksum session_sha))"
    by (rule checksum_mismatch_invalid [OF session_sha_fields(5) _ f mm]) simp
  with c show ?thesis by (simp add: ValidationFailed_def)
qed

text \<open>
  C7 (amended). When the session carries a non-empty expected checksum and reassembly has
  written the final file, completion compares the expected checksum with \<open>sha256:\<close> followed
  by the lowercase hexadecimal SHA-256 digest of the file's bytes. If the two strings
  differ, the call fails with VALIDATION_ERROR (400) and the session is marked FAILED.
\<close>

theorem C7_digest_mismatch_is_validation_error:
  assumes sess: "getUploadSession cfg st uid = (Inr session, st1)"
      and row: "db st uid = Some row"
      and asm: "reassembleChunks cfg s3get s3put (updateUploadStatus now st1 uid ASSEMBLING None) uid
                  (fileName session) (totalChunks session) = (Inr fp, st3)"
      and ck: "checksum session = Some c" "c \<noteq> []"
      and bytes: "fs st3 fp = Some bytes"
      and mismatch: "''sha256:'' @ sha256hex ext bytes \<noteq> c"
  shows "\<exists>e st'. completeUpload cfg ext now s3get s3put st uid = (Inl e, st')
           \<and> code e = ''VALIDATION_ERROR'' \<and> statusCode e = 400
           \<and> map_option status (db st' uid) = Some FAILED"
proof -
  let ?st2 = "updateUploadStatus now st1 uid ASSEMBLING None"
  have inv: "\<not> isValid (validateFile ext st3 fp (fileType session) (fileName session)
                          (fileSize session) (maxFileSize cfg) (checksum session))"
    using ck bytes mismatch by (intro checksum_mismatch_invalid) (simp_all add: calculateChecksum_def)
  have "db st1 uid = Some row" using getUploadSession_frame(1) [OF sess] row by simp
  then obtain row' where "db ?st2 uid = Some row'"
    using updateUploadStatus_db_dom by blast
  then have "db st3 uid = Some row'" using reassembleChunks_frame(1) [OF asm] by simp
  then have failed: "map_option status (db (failUpload now st3 uid) uid) = Some FAILED"
    by (rule failUpload_status)
  show ?thesis
    using complete_assembled [OF sess asm, of ext] inv failed
    by (simp add: ValidationFailed_def)
qed

theorem C7_digest_mismatch_is_validation_error_witness:
  "map_sum statusCode (\<lambda>r. ())
     (fst (completeUpload default_config stub_externals 50 (\<lambda>i. False) False
             (example_uploaded default_config session_sha calls_full) ''upl_1''))
     = Inl 400
   \<and> map_option status
        (db (snd (completeUpload default_config stub_externals 50 (\<lambda>i. False) False
                    (example_uploaded default_config session_sha calls_full) ''upl_1''))
           ''upl_1'') = Some FAILED"
proof -
  let ?st = "example_uploaded default_config session_sha calls_full"
  obtain st1 st3 where
    sess: "getUploadSession default_config ?st ''upl_1'' = (Inr session_sha, st1)"
    and asm: "reassembleChunks default_config (\<lambda>i. False) False
                (updateUploadStatus 50 st1 ''upl_1'' ASSEMBLING None)
                ''upl_1'' (fileName session_sha) (totalChunks session_sha)
                = (Inr ''uploads/final/upl_1/hello.txt'', st3)"
    and f: "fs st3 ''uploads/final/upl_1/hello.txt'' = Some ''HELLOWORLD!''"
    by (rule example_complete [OF default_dirs(1,2) session_sha_fields(1,2,3)])
  have row: "db ?st ''upl_1'' = Some session_sha" by (rule example_db [OF session_sha_fields(1)])
  have ne: "''sha256:deadbeef'' \<noteq> []" by simp
  have mm: "''sha256:'' @ sha256hex stub_externals ''HELLOWORLD!'' \<noteq> ''sha256:deadbeef''"
    by (simp add: stub_externals_def)
  from C7_digest_mismatch_is_validation_error [OF sess row asm session_sha_fields(5) ne f mm]
  show ?thesis by auto
qed

text \<open>
  C9 (as stated, refuted). The claim puts the final object under the object-store key
  \<open>final/<id>/<id>_<fileName>\<close> and has a successful completion return a path in that
  namespace. In a production configuration the completion returns the local path
  \<open>uploads/final/upl_1/hello.txt\<close>, nothing is stored under
  \<open>final/upl_1/upl_1_hello.txt\<close>, and the object is under \<open>datasets/upl_1/upl_1_hello.txt\<close>.
\<close>

theorem C9_object_key_is_under_datasets:
  "map_sum code filePath_cr
     (fst (completeUpload prod_config stub_externals 50 (\<lambda>i. True) True
             (example_uploaded prod_config session_uploading calls_full) ''upl_1''))
     = Inr ''uploads/final/upl_1/hello.txt''
   \<and> s3 (snd (completeUpload prod_config stub_externals 50 (\<lambda>i. True) True
                 (example_uploaded prod_config session_uploading calls_full) ''upl_1''))
        ''final/upl_1/upl_1_hello.txt'' = None
   \<and> s3 (snd (completeUpload prod_config stub_externals 50 (\<lambda>i. True) True
                 (example_uploaded prod_config session_uploading calls_full) ''upl_1''))
        ''datasets/upl_1/upl_1_hello.txt'' = Some ''HELLOWORLD!''"
proof -
  let ?st = "example_uploaded prod_config session_uploading calls_full"
  obtain st1 st3 where
    t: "s3 st3 = (if useS3 prod_config \<and> True
               then (s3 ?st)(''datasets/upl_1/upl_1_hello.txt'' \<mapsto> ''HELLOWORLD!'')
               else s3 ?st)"
    and c: "completeUpload prod_config stub_externals 50 (\<lambda>i. True) True ?st ''upl_1''
       = (if isValid (validateFile stub_externals st3 ''uploads/final/upl_1/hello.txt''
                        (fileType session_uploading) (fileName session_uploading)
                        (fileSize session_uploading) (maxFileSize prod_config)
                        (checksum session_uploading))
          then (Inr \<lparr>uploadId_cr = ''upl_1'', status_cr = ''completed'',
                     filePath_cr = ''uploads/final/upl_1/hello.txt''\<rparr>,
                completeUpload_service 50 st3 ''upl_1'' ''uploads/final/upl_1/hello.txt'')
          else (Inl ValidationFailed, failUpload 50 st3 ''upl_1''))"
    by (rule example_complete [OF default_dirs(5,6) session_uploading_fields(1,2,3)])
  have valid: "isValid (validateFile stub_externals st3 ''uploads/final/upl_1/hello.txt''
                 (fileType session_uploading) (fileName session_uploading)
                 (fileSize session_uploading) (maxFileSize prod_config)
                 (checksum session_uploading))"
    unfolding session_uploading_fields default_dirs by (rule example_validation)
  have res: "completeUpload prod_config stub_externals 50 (\<lambda>i. True) True ?st ''upl_1''
               = (Inr \<lparr>uploadId_cr = ''upl_1'', status_cr = ''completed'',
                        filePath_cr = ''uploads/final/upl_1/hello.txt''\<rparr>,
                  completeUpload_service 50 st3 ''upl_1'' ''uploads/final/upl_1/hello.txt'')"
    using c valid by simp
  have s3f: "s3 (completeUpload_service 50 st3 ''upl_1'' ''uploads/final/upl_1/hello.txt'')
               = (s3 ?st)(''datasets/upl_1/upl_1_hello.txt'' \<mapsto> ''HELLOWORLD!'')"
    using t by (simp add: completeUpload_service_def updateUploadStatus_frame default_dirs(8))
  show ?thesis
    unfolding res fst_conv snd_conv s3f
    by (simp add: example_s3_final_namespace)
qed

text \<open>
  C9 (amended). A successful completion returns, and stores as the session's file path,
  the local path \<open>finalDir/<id>/<fileName>\<close> (joined and normalised as \<open>path.join\<close> does);
  the assembled bytes are in the local file at that path; and when S3 is in use and the
  upload of the final file goes through, the same bytes are stored under the object-store
  key \<open>datasets/<id>/<id>_<fileName>\<close>.
\<close>

theorem C9_final_object_paths:
  assumes sess: "getUploadSession cfg st uid = (Inr session, st1)"
      and row: "db st uid = Some row"
      and ok: "completeUpload cfg ext now s3get s3put st uid = (Inr r, st')"
  shows "filePath_cr r = path_join (path_join (finalDir cfg) uid) (fileName session)
         \<and> map_option filePath (db st' uid) = Some (Some (filePath_cr r))
         \<and> (\<exists>bytes. fs st' (filePath_cr r) = Some bytes
               \<and> (useS3 cfg \<and> s3put \<longrightarrow>
                    s3 st' (''datasets/'' @ uid @ ''/'' @ uid @ ''_'' @ fileName session) = Some bytes))"
proof -
  let ?st2 = "updateUploadStatus now st1 uid ASSEMBLING None"
  obtain res st3 where asm: "reassembleChunks cfg s3get s3put ?st2 uid (fileName session)
                              (totalChunks session) = (res, st3)" by fastforce
  from ok sess asm obtain fp where fp: "res = Inr fp"
    by (cases res) (auto simp add: completeUpload_def Let_def)
  note asm' = asm [unfolded fp]
  from ok complete_assembled [OF sess asm', of ext]
  have r: "r = \<lparr>uploadId_cr = uid, status_cr = ''completed'', filePath_cr = fp\<rparr>"
    and st': "st' = completeUpload_service now st3 uid fp"
    by (auto split: if_splits)
  from reassembleChunks_success [OF asm'] obtain bytes where
    p: "fp = localFinalPath cfg uid (fileName session)" and b: "fs st3 fp = Some bytes"
    and s: "useS3 cfg \<and> s3put \<longrightarrow> s3 st3 (getFinalFilePath uid (fileName session)) = Some bytes"
    by blast
  have ne: "fp \<noteq> []"
    unfolding p localFinalPath_def path_join_def normalize_def
    by (auto simp add: Let_def)
  have "db st1 uid = Some row" using getUploadSession_frame(1) [OF sess] row by simp
  then obtain row' where "db ?st2 uid = Some row'"
    using updateUploadStatus_db_dom by blast
  then have "db st3 uid = Some row'" using reassembleChunks_frame(1) [OF asm'] by simp
  then have fpdb: "map_option filePath (db st' uid) = Some (Some fp)"
    using ne by (simp add: st' completeUpload_service_def updateUploadStatus_def)
  show ?thesis
    using r p b s fpdb
    by (simp add: st' completeUpload_service_def updateUploadStatus_frame localFinalPath_def
          getFinalFilePath_def)
qed

theorem C9_final_object_paths_witness:
  "map_option filePath
     (db (snd (completeUpload prod_config stub_externals 50 (\<lambda>i. True) True
                 (example_uploaded prod_config session_uploading calls_full) ''upl_1''))
        ''upl_1'') = Some (Some ''uploads/final/upl_1/hello.txt'')
   \<and> fs (snd (completeUpload prod_config stub_externals 50 (\<lambda>i. True) True
                 (example_uploaded prod_config session_uploading calls_full) ''upl_1''))
        ''uploads/final/upl_1/hello.txt''
     = s3 (snd (completeUpload prod_config stub_externals 50 (\<lambda>i. True) True
                 (example_uploaded prod_config session_uploading calls_full) ''upl_1''))
        ''datasets/upl_1/upl_1_hello.txt''"
proof -
  let ?st = "example_uploaded prod_config session_uploading calls_full"
  let ?res = "completeUpload prod_config stub_externals 50 (\<lambda>i. True) True ?st ''upl_1''"
  obtain st1 st3 where
    c: "?res
       = (if isValid (validateFile stub_externals st3 ''uploads/final/upl_1/hello.txt''
                        (fileType session_uploading) (fileName session_uploading)
                        (fileSize session_uploading) (maxFileSize prod_config)
                        (checksum session_uploading))
          then (Inr \<lparr>uploadId_cr = ''upl_1'', status_cr = ''completed'',
                     filePath_cr = ''uploads/final/upl_1/hello.txt''\<rparr>,
                completeUpload_service 50 st3 ''upl_1'' ''uploads/final/upl_1/hello.txt'')
          else (Inl ValidationFailed, failUpload 50 st3 ''upl_1''))"
    by (rule example_complete [OF default_dirs(5,6) session_uploading_fields(1,2,3)])
  have valid: "isValid (validateFile stub_externals st3 ''uploads/final/upl_1/hello.txt''
                 (fileType session_uploading) (fileName session_uploading)
                 (fileSize session_uploading) (maxFileSize prod_config)
                 (checksum session_uploading))"
    unfolding session_uploading_fields default_dirs by (rule example_validation)
  have ok: "?res = (Inr \<lparr>uploadId_cr = ''upl_1'', status_cr = ''completed'',
                         filePath_cr = ''uploads/final/upl_1/hello.txt''\<rparr>, snd ?res)"
    using c valid by simp
  note sess = example_session [OF session_uploading_fields(1), of prod_config calls_full]
  have row: "db ?st ''upl_1'' = Some session_uploading"
    by (rule example_db [OF session_uploading_fields(1)])
  from C9_final_object_paths [OF sess row ok]
  show ?thesis by (auto simp add: default_dirs(8) session_uploading_fields(2))
qed




section \<open>Session status updates\<close>

lemma redis_get_del_same: "redis_get (redis_del r k) k = None"
  by (simp add: redis_get_def redis_del_def delete_conv')

lemma reassemble_loop_errors:
  "reassemble_loop cfg s3get uid fp todo st = (Some e, st') \<Longrightarrow> e = NotFoundError \<or> e = InternalError"
proof (induction todo arbitrary: st)
  case Nil
  then show ?case by simp
next
  case (Cons i todo)
  then show ?case
    by (cases "getChunkMetadata st uid i"; cases "readChunk cfg s3get st uid i (the (getChunkMetadata st uid i))")
       auto
qed

lemma reassembleChunks_errors:
  assumes "reassembleChunks cfg s3get s3put st uid fname n = (Inl e, st')"
  shows "e = MissingChunksError (getMissingChunks st uid n) \<or> e = NotFoundError \<or> e = InternalError"
proof -
  let ?fp = "path_join (path_join (finalDir cfg) uid) fname"
  let ?stz = "st\<lparr>fs := (fs st)(?fp \<mapsto> [])\<rparr>"
  obtain r st1 where l: "reassemble_loop cfg s3get uid ?fp [0..<n] ?stz = (r, st1)" by fastforce
  show ?thesis
  proof (cases r)
    case None
    with assms l show ?thesis
      by (auto simp add: reassembleChunks_def Let_def split: if_splits)
  next
    case (Some e')
    with l reassemble_loop_errors have "e' = NotFoundError \<or> e' = InternalError" by blast
    with assms l Some show ?thesis
      by (auto simp add: reassembleChunks_def Let_def split: if_splits)
  qed
qed

lemma completeUpload_errors:
  assumes "completeUpload cfg ext now s3get s3put st uid = (Inl e, st')"
  shows "statusCode e = 404 \<or> statusCode e = 400 \<or> statusCode e = 500"
proof -
  obtain rs st1 where g: "getUploadSession cfg st uid = (rs, st1)" by fastforce
  show ?thesis
  proof (cases rs)
    case (Inl e1)
    with g have "e1 = NotFoundError"
      by (auto simp add: getUploadSession_def split: option.splits)
    moreover from assms g Inl have "e = e1" by (simp add: completeUpload_def)
    ultimately show ?thesis by (simp add: NotFoundError_def)
  next
    case (Inr session)
    let ?st2 = "updateUploadStatus now st1 uid ASSEMBLING None"
    obtain ra st3 where a: "reassembleChunks cfg s3get s3put ?st2 uid (fileName session)
                              (totalChunks session) = (ra, st3)" by fastforce
    show ?thesis
    proof (cases ra)
      case (Inl e2)
      with a reassembleChunks_errors
      have "e2 = MissingChunksError (getMissingChunks ?st2 uid (totalChunks session))
              \<or> e2 = NotFoundError \<or> e2 = InternalError" by blast
      moreover from assms g Inr a Inl have "e = e2" by (simp add: completeUpload_def Let_def)
      ultimately show ?thesis
        by (auto simp add: MissingChunksError_def NotFoundError_def InternalError_def)
    next
      case (Inr fp)
      with assms g \<open>rs = Inr session\<close> a have "e = ValidationFailed"
        by (auto simp add: completeUpload_def Let_def split: if_splits)
      then show ?thesis by (simp add: ValidationFailed_def)
    qed
  qed
qed

text \<open>
  C3 (as stated, refuted). The claim says that a status update off the legal edges fails
  and leaves the stored status alone. \<open>updateUploadStatus\<close> has no such check: moving a
  COMPLETED session back to INIT, which is on no legal edge, goes through and the
  stored status becomes INIT.
\<close>

theorem C3_illegal_transition_accepted:
  "\<not> spec_legal_transition COMPLETED INIT \<and>
   map_option status
     (db (updateUploadStatus 5 (state_with (session0\<lparr>status := COMPLETED\<rparr>)) ''upl_1'' INIT None)
        ''upl_1'') = Some INIT"
  by (simp add: updateUploadStatus_def state_with_def session0_def)

text \<open>
  C3 (amended). A status update is not validated against any state machine: for every
  stored session, every target status and every instant, \<open>updateUploadStatus\<close> overwrites
  the stored status with the requested one, stamps \<open>updated_at\<close>, writes \<open>file_path\<close> when a
  non-empty one is given, leaves every other row as it was and drops the cached copy of the
  session. In particular every pair of statuses, legal edge or not, is accepted. A
  completion request does not look at the status either: when it fails, it fails with 404,
  400 or 500, never with a conflict.
\<close>

theorem C3_update_status_unconditional:
  assumes "db st uid = Some row"
  shows "db (updateUploadStatus now st uid new_status fp) uid =
           Some (row\<lparr>status := new_status, updatedAt := now,
                     filePath := (if fp \<noteq> None \<and> fp \<noteq> Some [] then fp else filePath row)\<rparr>)
         \<and> (\<forall>other. other \<noteq> uid \<longrightarrow>
               db (updateUploadStatus now st uid new_status fp) other = db st other)
         \<and> redis_get (sessionCache (updateUploadStatus now st uid new_status fp))
               (getUploadSessionKey uid) = None
         \<and> (\<forall>e st'. completeUpload cfg ext now s3get s3put st uid = (Inl e, st')
               \<longrightarrow> statusCode e \<noteq> 409)"
proof -
  have "\<forall>e st'. completeUpload cfg ext now s3get s3put st uid = (Inl e, st')
               \<longrightarrow> statusCode e \<noteq> 409"
    using completeUpload_errors by fastforce
  then show ?thesis
    using assms by (simp add: updateUploadStatus_def redis_get_del_same)
qed

theorem C3_update_status_unconditional_witness:
  "db (state_with (session0\<lparr>status := UPLOADING\<rparr>)) ''upl_1''
     = Some (session0\<lparr>status := UPLOADING\<rparr>)
   \<and> map_option status
       (db (updateUploadStatus 7 (state_with (session0\<lparr>status := UPLOADING\<rparr>)) ''upl_1'' INIT None)
          ''upl_1'') = Some INIT
   \<and> map_sum statusCode (\<lambda>r. ())
       (fst (completeUpload default_config stub_externals 7 (\<lambda>i. False) False
               (state_with (session0\<lparr>status := UPLOADING\<rparr>)) ''upl_1'')) \<noteq> Inl 409"
proof -
  let ?st = "state_with (session0\<lparr>status := UPLOADING\<rparr>)"
  let ?res = "completeUpload default_config stub_externals 7 (\<lambda>i. False) False ?st ''upl_1''"
  have h: "db ?st ''upl_1'' = Some (session0\<lparr>status := UPLOADING\<rparr>)"
    by (simp add: state_with_def session0_def)
  note w = C3_update_status_unconditional
             [OF h, of 7 INIT None default_config stub_externals "\<lambda>i. False" False]
  have upd: "map_option status (db (updateUploadStatus 7 ?st ''upl_1'' INIT None) ''upl_1'') = Some INIT"
    using w by simp
  have no_conflict: "map_sum statusCode (\<lambda>r. ()) (fst ?res) \<noteq> Inl 409"
  proof (cases "fst ?res")
    case (Inl e)
    then have "?res = (Inl e, snd ?res)" by (metis prod.collapse)
    with w have "statusCode e \<noteq> 409" by blast
    with Inl show ?thesis by simp
  next
    case (Inr r)
    then show ?thesis by simp
  qed
  show ?thesis using h upd no_conflict by blast
qed

end
